theory Spec2Isabelle
  imports Main "HOL-Library.AList"
begin

section \<open>The lexer snapshot: data model\<close>

text \<open>
  The runtime values of \<^verbatim>\<open>Language.LineTokenKind\<close>. The enum itself is declared outside
  this file; the members named here are the ones \<^verbatim>\<open>lexerSnapshot.ts\<close> mentions, and
  \<open>OtherKind\<close> stands for every remaining member by its name. The default branch of
  \<^verbatim>\<open>LexerSnapshot.factory\<close> reinterprets a line-token kind as a \<^verbatim>\<open>TokenKind\<close> with
  a cast that leaves the runtime value as it is, so both enums share one type here.
\<close>

datatype LineTokenKind =
    LineComment
  | MultilineComment
  | MultilineCommentStart
  | MultilineCommentContent
  | MultilineCommentEnd
  | QuotedIdentifierStart
  | QuotedIdentifierContent
  | QuotedIdentifierEnd
  | TextLiteralStart
  | TextLiteralContent
  | TextLiteralEnd
  | Identifier
  | TextLiteral
  | OtherKind string

type_synonym TokenKind = LineTokenKind

datatype CommentKind = Line | Multiline

text \<open>
  Offsets, lengths and line numbers are natural numbers. A string is a list of code
  units; one \<^typ>\<open>char\<close> stands for one UTF-16 code unit, and nothing below looks
  inside a unit.
\<close>

record TokenPosition =
  codeUnit :: nat
  lineCodeUnit :: nat
  lineNumber :: nat

text \<open>
  \<^verbatim>\<open>IToken<Kind, Position>\<close>: the shape shared by line tokens (positions are offsets
  within the line), flat line tokens, tokens and comments (positions are
  \<^typ>\<open>TokenPosition\<close>).
\<close>

record ('k, 'p) IToken =
  kind :: 'k
  data :: string
  positionStart :: 'p
  positionEnd :: 'p

type_synonym LineToken = "(LineTokenKind, nat) IToken"
type_synonym Token = "(TokenKind, TokenPosition) IToken"

record FlatLineToken = "(LineTokenKind, TokenPosition) IToken" +
  flatIndex :: nat

record Comment = "(CommentKind, TokenPosition) IToken" +
  containsNewline :: bool

text \<open>
  \<^verbatim>\<open>LineTerminator\<close>: its fields \<^verbatim>\<open>codeUnit\<close> and \<^verbatim>\<open>text\<close>. A field name that another
  record already uses, or that is a keyword, gets a prefix here and below.
\<close>

record LineTerminator =
  ltCodeUnit :: nat
  ltText :: string

text \<open>A line of \<^verbatim>\<open>Lexer.State\<close>: the fields \<^verbatim>\<open>text\<close>, \<^verbatim>\<open>lineTerminator\<close>, \<^verbatim>\<open>tokens\<close>.\<close>

record TLine =
  lineText :: string
  lineTerminator :: string
  lineTokens :: "LineToken list"

text \<open>
  \<^verbatim>\<open>Lexer.State\<close>. Its localization templates only choose the wording of error
  messages, which is not modelled, so the record keeps the lines alone.
\<close>

record LexerState =
  lines :: "TLine list"

text \<open>\<^verbatim>\<open>FlattenedLines\<close>: the fields \<^verbatim>\<open>text\<close>, \<^verbatim>\<open>lineTerminators\<close>, \<^verbatim>\<open>flatLineTokens\<close>.\<close>

record FlattenedLines =
  flText :: string
  flLineTerminators :: "LineTerminator list"
  flatLineTokens :: "FlatLineToken list"

text \<open>
  \<^verbatim>\<open>LexerSnapshot\<close>: the fields \<^verbatim>\<open>text\<close>, \<^verbatim>\<open>tokens\<close>, \<^verbatim>\<open>comments\<close>, \<^verbatim>\<open>lineTerminators\<close>.
\<close>

record LexerSnapshot =
  snapText :: string
  snapTokens :: "Token list"
  snapComments :: "Comment list"
  snapLineTerminators :: "LineTerminator list"

text \<open>
  The two read results, each with its \<^verbatim>\<open>flatIndexEnd\<close>, and the result of
  \<^verbatim>\<open>collectWhileContent\<close>.
\<close>

record ConcatenatedCommentRead =
  comment :: Comment
  commentFlatIndexEnd :: nat

record ConcatenatedTokenRead =
  token :: Token
  flatIndexEnd :: nat

record FlatLineCollection =
  tokenStart :: FlatLineToken
  collectedTokens :: "FlatLineToken list"
  maybeTokenEnd :: "FlatLineToken option"

datatype UnterminatedMultilineTokenKind =
    UnterminatedMultilineComment
  | UnterminatedQuotedIdentifier
  | UnterminatedText

text \<open>
  What the assembly throws: \<^verbatim>\<open>LexError.UnterminatedMultilineTokenError\<close> with the grapheme
  position and the kind; \<^verbatim>\<open>CommonError.InvariantError\<close> with the token found in place of
  the paired end (its \<^verbatim>\<open>details.foundTokenEnd\<close>); or the invariant error that
  \<^verbatim>\<open>StringUtils.graphemePositionFrom\<close> throws when it finds no column for the code unit
  it is given.
\<close>

datatype 'gp Thrown =
    UnterminatedMultilineTokenError 'gp UnterminatedMultilineTokenKind
  | InvariantError FlatLineToken
  | GraphemePositionError

text \<open>The error side of \<^verbatim>\<open>TriedLexerSnapshot\<close>: the thrown value in its wrapper class.\<close>

datatype 'gp TLexError =
    LexError "'gp Thrown"
  | CommonError "'gp Thrown"

section \<open>The lexer snapshot: operations\<close>

text \<open>
  \<^verbatim>\<open>String.prototype.substring\<close>: both indices are clamped to the length, and they are
  swapped when the first is the larger.
\<close>

definition substring :: "string \<Rightarrow> nat \<Rightarrow> nat \<Rightarrow> string" where
  "substring s a b = take (max a b - min a b) (drop (min a b) s)"

text \<open>Reading an array at an index: \<^verbatim>\<open>undefined\<close> past the end.\<close>

definition at :: "'a list \<Rightarrow> nat \<Rightarrow> 'a option" where
  "at xs i = (if i < length xs then Some (xs ! i) else None)"

text \<open>
  The inner loop of \<^verbatim>\<open>flattenLineTokens\<close> over the tokens of one line; it returns the
  extended token array and the next flat index.
\<close>

fun flattenTokens ::
  "LineToken list \<Rightarrow> nat \<Rightarrow> nat \<Rightarrow> FlatLineToken list \<Rightarrow> nat \<Rightarrow> FlatLineToken list \<times> nat"
where
  "flattenTokens [] lineTextOffset lineNum flatToks flatIdx = (flatToks, flatIdx)"
| "flattenTokens (lineToken # rest) lineTextOffset lineNum flatToks flatIdx =
     flattenTokens rest lineTextOffset lineNum
       (flatToks @
         [\<lparr> kind = kind lineToken,
            data = data lineToken,
            positionStart =
              \<lparr> codeUnit = lineTextOffset + positionStart lineToken,
                lineCodeUnit = positionStart lineToken,
                lineNumber = lineNum \<rparr>,
            positionEnd =
              \<lparr> codeUnit = lineTextOffset + positionEnd lineToken,
                lineCodeUnit = positionEnd lineToken,
                lineNumber = lineNum \<rparr>,
            flatIndex = flatIdx \<rparr>])
       (flatIdx + 1)"

text \<open>The outer loop of \<^verbatim>\<open>flattenLineTokens\<close>, over the line numbers.\<close>

function flattenLoop ::
  "TLine list \<Rightarrow> nat \<Rightarrow> string \<Rightarrow> LineTerminator list \<Rightarrow> FlatLineToken list \<Rightarrow> nat \<Rightarrow> nat
     \<Rightarrow> FlattenedLines"
where
  "flattenLoop lns lineNum txt lineTerms flatToks lineTextOffset flatIdx =
     (if lineNum < length lns then
        flattenLoop lns (lineNum + 1)
          (if lineNum \<noteq> length lns - 1
           then txt @ lineText (lns ! lineNum) @ lineTerminator (lns ! lineNum)
           else txt @ lineText (lns ! lineNum))
          (lineTerms @
            [\<lparr> ltCodeUnit = lineTextOffset + length (lineText (lns ! lineNum)),
               ltText = lineTerminator (lns ! lineNum) \<rparr>])
          (fst (flattenTokens (lineTokens (lns ! lineNum)) lineTextOffset lineNum flatToks flatIdx))
          (lineTextOffset + length (lineText (lns ! lineNum))
             + length (lineTerminator (lns ! lineNum)))
          (snd (flattenTokens (lineTokens (lns ! lineNum)) lineTextOffset lineNum flatToks flatIdx))
      else \<lparr> flText = txt, flLineTerminators = lineTerms, flatLineTokens = flatToks \<rparr>)"
  by pat_completeness auto
termination
  by (relation "measure (\<lambda>(lns, lineNum, _). length lns - lineNum)") auto

declare flattenLoop.simps [simp del]

definition flattenLineTokens :: "LexerState \<Rightarrow> FlattenedLines" where
  "flattenLineTokens state = flattenLoop (lines state) 0 [] [] [] 0 0"

text \<open>
  The scan of \<^verbatim>\<open>graphemePositionStartFrom\<close> over the line terminators. It carries the
  two window bounds and stops at the first terminator at or after the end of the token.
\<close>

fun windowLoop :: "LineTerminator list \<Rightarrow> nat \<Rightarrow> nat \<Rightarrow> nat \<Rightarrow> nat \<Rightarrow> nat \<times> nat" where
  "windowLoop [] startCodeUnit endCodeUnit substringPositionStart substringPositionEnd =
     (substringPositionStart, substringPositionEnd)"
| "windowLoop (lt # rest) startCodeUnit endCodeUnit substringPositionStart substringPositionEnd =
     (let substringPositionStart' =
            (if ltCodeUnit lt < startCodeUnit then ltCodeUnit lt + length (ltText lt)
             else substringPositionStart)
      in if ltCodeUnit lt \<ge> endCodeUnit
         then (substringPositionStart', ltCodeUnit lt + length (ltText lt))
         else windowLoop rest startCodeUnit endCodeUnit substringPositionStart' substringPositionEnd)"

text \<open>
  \<^verbatim>\<open>LexerSnapshot.graphemePositionStartFrom\<close>. \<^verbatim>\<open>StringUtils.graphemePositionFrom\<close> is
  declared outside this file and is the parameter \<open>graphemePositionFrom\<close>. It returns a
  position or throws: \<open>None\<close> is the call that throws, and the call is the last thing
  this function does, so it throws when the call does.
\<close>

definition graphemePositionStartFrom ::
  "(string \<Rightarrow> nat \<Rightarrow> nat \<Rightarrow> nat \<Rightarrow> 'gp option) \<Rightarrow> string \<Rightarrow> LineTerminator list
     \<Rightarrow> (('k, TokenPosition, 'z) IToken_scheme) \<Rightarrow> 'gp option"
where
  "graphemePositionStartFrom graphemePositionFrom txt lineTerms flatLineToken =
     (let window = windowLoop lineTerms (codeUnit (positionStart flatLineToken))
                     (codeUnit (positionEnd flatLineToken)) 0 (length txt)
      in graphemePositionFrom (substring txt (fst window) (snd window))
           (lineCodeUnit (positionStart flatLineToken))
           (lineNumber (positionStart flatLineToken))
           (codeUnit (positionEnd flatLineToken)))"

definition readLineComment :: "FlatLineToken \<Rightarrow> Comment" where
  "readLineComment flatToken =
     \<lparr> kind = Line,
       data = data flatToken,
       positionStart = positionStart flatToken,
       positionEnd = positionEnd flatToken,
       containsNewline = True \<rparr>"

definition readSingleLineMultilineComment :: "FlatLineToken \<Rightarrow> Comment" where
  "readSingleLineMultilineComment flatToken =
     \<lparr> kind = Multiline,
       data = data flatToken,
       positionStart = positionStart flatToken,
       positionEnd = positionEnd flatToken,
       containsNewline =
         (lineNumber (positionStart flatToken) \<noteq> lineNumber (positionEnd flatToken)) \<rparr>"

text \<open>The loop of \<^verbatim>\<open>collectWhileContent\<close>: the index it stops at and the tokens collected.\<close>

function collectLoop ::
  "FlatLineToken list \<Rightarrow> LineTokenKind \<Rightarrow> nat \<Rightarrow> FlatLineToken list \<Rightarrow> nat \<times> FlatLineToken list"
where
  "collectLoop flatTokens contentKind flatIdx collected =
     (if flatIdx < length flatTokens then
        (if kind (flatTokens ! flatIdx) \<noteq> contentKind then (flatIdx, collected)
         else collectLoop flatTokens contentKind (flatIdx + 1) (collected @ [flatTokens ! flatIdx]))
      else (flatIdx, collected))"
  by pat_completeness auto
termination
  by (relation "measure (\<lambda>(flatTokens, _, flatIdx, _). length flatTokens - flatIdx)") auto

declare collectLoop.simps [simp del]

definition collectWhileContent ::
  "FlatLineToken list \<Rightarrow> FlatLineToken \<Rightarrow> LineTokenKind \<Rightarrow> FlatLineCollection"
where
  "collectWhileContent flatTokens tokStart contentKind =
     (let stop = collectLoop flatTokens contentKind (flatIndex tokStart + 1) []
      in \<lparr> tokenStart = tokStart,
           collectedTokens = snd stop,
           maybeTokenEnd = at flatTokens (fst stop) \<rparr>)"

text \<open>
  The three readers of a multiline construct. In the branch without an end token the
  position of the start token is computed first, as an argument of the error's
  constructor: when that computation throws, its error is the one thrown.
\<close>

definition readMultilineComment ::
  "(string \<Rightarrow> nat \<Rightarrow> nat \<Rightarrow> nat \<Rightarrow> 'gp option) \<Rightarrow> FlattenedLines \<Rightarrow> FlatLineToken
     \<Rightarrow> 'gp Thrown + ConcatenatedCommentRead"
where
  "readMultilineComment graphemePositionFrom flattenedLines tokStart =
     (case maybeTokenEnd
             (collectWhileContent (flatLineTokens flattenedLines) tokStart MultilineCommentContent) of
        None \<Rightarrow>
          (case graphemePositionStartFrom graphemePositionFrom (flText flattenedLines)
                  (flLineTerminators flattenedLines) tokStart of
             None \<Rightarrow> Inl GraphemePositionError
           | Some graphemePosition \<Rightarrow>
               Inl (UnterminatedMultilineTokenError graphemePosition UnterminatedMultilineComment))
      | Some tokenEnd \<Rightarrow>
          if kind tokenEnd \<noteq> MultilineCommentEnd then Inl (InvariantError tokenEnd)
          else Inr \<lparr> comment =
                       \<lparr> kind = Multiline,
                         data = substring (flText flattenedLines)
                                  (codeUnit (positionStart tokStart))
                                  (codeUnit (positionEnd tokenEnd)),
                         positionStart = positionStart tokStart,
                         positionEnd = positionEnd tokenEnd,
                         containsNewline =
                           (lineNumber (positionStart tokStart)
                              \<noteq> lineNumber (positionEnd tokenEnd)) \<rparr>,
                     commentFlatIndexEnd = flatIndex tokenEnd \<rparr>)"

definition readQuotedIdentifier ::
  "(string \<Rightarrow> nat \<Rightarrow> nat \<Rightarrow> nat \<Rightarrow> 'gp option) \<Rightarrow> FlattenedLines \<Rightarrow> FlatLineToken
     \<Rightarrow> 'gp Thrown + ConcatenatedTokenRead"
where
  "readQuotedIdentifier graphemePositionFrom flattenedLines tokStart =
     (case maybeTokenEnd
             (collectWhileContent (flatLineTokens flattenedLines) tokStart QuotedIdentifierContent) of
        None \<Rightarrow>
          (case graphemePositionStartFrom graphemePositionFrom (flText flattenedLines)
                  (flLineTerminators flattenedLines) tokStart of
             None \<Rightarrow> Inl GraphemePositionError
           | Some graphemePosition \<Rightarrow>
               Inl (UnterminatedMultilineTokenError graphemePosition UnterminatedQuotedIdentifier))
      | Some tokenEnd \<Rightarrow>
          if kind tokenEnd \<noteq> QuotedIdentifierEnd then Inl (InvariantError tokenEnd)
          else Inr \<lparr> token =
                       \<lparr> kind = Identifier,
                         data = substring (flText flattenedLines)
                                  (codeUnit (positionStart tokStart))
                                  (codeUnit (positionEnd tokenEnd)),
                         positionStart = positionStart tokStart,
                         positionEnd = positionEnd tokenEnd \<rparr>,
                     flatIndexEnd = flatIndex tokenEnd \<rparr>)"

definition readTextLiteral ::
  "(string \<Rightarrow> nat \<Rightarrow> nat \<Rightarrow> nat \<Rightarrow> 'gp option) \<Rightarrow> FlattenedLines \<Rightarrow> FlatLineToken
     \<Rightarrow> 'gp Thrown + ConcatenatedTokenRead"
where
  "readTextLiteral graphemePositionFrom flattenedLines tokStart =
     (case maybeTokenEnd
             (collectWhileContent (flatLineTokens flattenedLines) tokStart TextLiteralContent) of
        None \<Rightarrow>
          (case graphemePositionStartFrom graphemePositionFrom (flText flattenedLines)
                  (flLineTerminators flattenedLines) tokStart of
             None \<Rightarrow> Inl GraphemePositionError
           | Some graphemePosition \<Rightarrow>
               Inl (UnterminatedMultilineTokenError graphemePosition UnterminatedText))
      | Some tokenEnd \<Rightarrow>
          if kind tokenEnd \<noteq> TextLiteralEnd then Inl (InvariantError tokenEnd)
          else Inr \<lparr> token =
                       \<lparr> kind = TextLiteral,
                         data = substring (flText flattenedLines)
                                  (codeUnit (positionStart tokStart))
                                  (codeUnit (positionEnd tokenEnd)),
                         positionStart = positionStart tokStart,
                         positionEnd = positionEnd tokenEnd \<rparr>,
                     flatIndexEnd = flatIndex tokenEnd \<rparr>)"

text \<open>
  One pass through the body of the \<^verbatim>\<open>while\<close> loop of \<^verbatim>\<open>LexerSnapshot.factory\<close>, at a
  flat index inside the array: the \<^verbatim>\<open>switch\<close> on the kind (the chain of its equality
  tests) followed by \<^verbatim>\<open>flatIndex += 1\<close>. It returns the next index and the two arrays,
  or the error thrown.
\<close>

definition factoryStep ::
  "(string \<Rightarrow> nat \<Rightarrow> nat \<Rightarrow> nat \<Rightarrow> 'gp option) \<Rightarrow> FlattenedLines \<Rightarrow> nat \<Rightarrow> Token list \<Rightarrow> Comment list
     \<Rightarrow> 'gp Thrown + nat \<times> Token list \<times> Comment list"
where
  "factoryStep graphemePositionFrom flattenedLines flatIdx toks comms =
     (let flatToken = flatLineTokens flattenedLines ! flatIdx in
      if kind flatToken = LineComment then
        Inr (flatIdx + 1, toks, comms @ [readLineComment flatToken])
      else if kind flatToken = MultilineComment then
        Inr (flatIdx + 1, toks, comms @ [readSingleLineMultilineComment flatToken])
      else if kind flatToken = MultilineCommentStart then
        (case readMultilineComment graphemePositionFrom flattenedLines flatToken of
           Inl e \<Rightarrow> Inl e
         | Inr concatenatedTokenRead \<Rightarrow>
             Inr (commentFlatIndexEnd concatenatedTokenRead + 1, toks,
                  comms @ [comment concatenatedTokenRead]))
      else if kind flatToken = QuotedIdentifierStart then
        (case readQuotedIdentifier graphemePositionFrom flattenedLines flatToken of
           Inl e \<Rightarrow> Inl e
         | Inr concatenatedTokenRead \<Rightarrow>
             Inr (flatIndexEnd concatenatedTokenRead + 1,
                  toks @ [token concatenatedTokenRead], comms))
      else if kind flatToken = TextLiteralStart then
        (case readTextLiteral graphemePositionFrom flattenedLines flatToken of
           Inl e \<Rightarrow> Inl e
         | Inr concatenatedTokenRead \<Rightarrow>
             Inr (flatIndexEnd concatenatedTokenRead + 1,
                  toks @ [token concatenatedTokenRead], comms))
      else
        Inr (flatIdx + 1,
             toks @
               [\<lparr> kind = kind flatToken,
                  data = data flatToken,
                  positionStart = positionStart flatToken,
                  positionEnd = positionEnd flatToken \<rparr>],
             comms))"

text \<open>
  The \<^verbatim>\<open>while\<close> loop itself. Its index is set from the \<^verbatim>\<open>flatIndex\<close> field of an end
  token, so for an arbitrary token array nothing bounds the number of iterations:
  \<open>None\<close> is the run that never leaves the loop. A thrown error ends it with \<open>Inl\<close>.
\<close>

partial_function (option) factoryLoop ::
  "(string \<Rightarrow> nat \<Rightarrow> nat \<Rightarrow> nat \<Rightarrow> 'gp option) \<Rightarrow> FlattenedLines \<Rightarrow> nat \<Rightarrow> Token list \<Rightarrow> Comment list
     \<Rightarrow> ('gp Thrown + Token list \<times> Comment list) option"
where
  "factoryLoop graphemePositionFrom flattenedLines flatIdx toks comms =
     (if flatIdx < length (flatLineTokens flattenedLines) then
        (case factoryStep graphemePositionFrom flattenedLines flatIdx toks comms of
           Inl e \<Rightarrow> Some (Inl e)
         | Inr next \<Rightarrow>
             factoryLoop graphemePositionFrom flattenedLines
               (fst next) (fst (snd next)) (snd (snd next)))
      else Some (Inr (toks, comms)))"

definition factory ::
  "(string \<Rightarrow> nat \<Rightarrow> nat \<Rightarrow> nat \<Rightarrow> 'gp option) \<Rightarrow> LexerState \<Rightarrow> ('gp Thrown + LexerSnapshot) option"
where
  "factory graphemePositionFrom state =
     (let flattenedLines = flattenLineTokens state
      in case factoryLoop graphemePositionFrom flattenedLines 0 [] [] of
           None \<Rightarrow> None
         | Some (Inl e) \<Rightarrow> Some (Inl e)
         | Some (Inr (toks, comms)) \<Rightarrow>
             Some (Inr \<lparr> snapText = flText flattenedLines,
                         snapTokens = toks,
                         snapComments = comms,
                         snapLineTerminators = flLineTerminators flattenedLines \<rparr>))"

text \<open>
  Modelled from the spec: \<^verbatim>\<open>LexError.isTInnerLexError\<close> is declared outside this file.
  The unterminated-multiline error is the lex error of the taxonomy; the invariant errors
  are internal faults, which \<^verbatim>\<open>CommonError.ensureCommonError\<close> wraps.
\<close>

fun isTInnerLexError :: "'gp Thrown \<Rightarrow> bool" where
  "isTInnerLexError (UnterminatedMultilineTokenError _ _) = True"
| "isTInnerLexError (InvariantError _) = False"
| "isTInnerLexError GraphemePositionError = False"

definition tryFrom ::
  "(string \<Rightarrow> nat \<Rightarrow> nat \<Rightarrow> nat \<Rightarrow> 'gp option) \<Rightarrow> LexerState \<Rightarrow> ('gp TLexError + LexerSnapshot) option"
where
  "tryFrom graphemePositionFrom state =
     (case factory graphemePositionFrom state of
        None \<Rightarrow> None
      | Some (Inr snapshot) \<Rightarrow> Some (Inr snapshot)
      | Some (Inl e) \<Rightarrow>
          Some (Inl (if isTInnerLexError e then LexError e else CommonError e)))"

section \<open>The parser context: data model\<close>

text \<open>
  A node id and the id counter are integer-valued JavaScript numbers, held as the integer
  itself. A JavaScript number is a double: every integer of magnitude up to \<open>2 ^ 53\<close> is
  one, and beyond that only the multiples of a growing power of two are. The one sum the
  context computes on ids, \<^verbatim>\<open>state.nodeIdCounter += 1\<close>, is the exact sum rounded to the
  nearest double, a tie going to the double with the even significand. \<open>ulp\<close> is the
  distance between neighbouring doubles at a magnitude, \<open>toDouble\<close> the rounding of an
  integer (below the overflow threshold of doubles), and \<open>jsAddOne n\<close> the JavaScript
  value of \<^verbatim>\<open>n + 1\<close> for an integer \<open>n\<close> that is a double.
\<close>

function ulp :: "nat \<Rightarrow> nat" where
  "ulp m = (if m < 2 ^ 53 then 1 else 2 * ulp (m div 2))"
  by pat_completeness auto
termination
  by (relation "measure (\<lambda>m. m)") auto

declare ulp.simps [simp del]

definition roundMagnitude :: "nat \<Rightarrow> nat" where
  "roundMagnitude m =
     (if 2 * (m mod ulp m) > ulp m \<or> (2 * (m mod ulp m) = ulp m \<and> odd (m div ulp m))
      then (m div ulp m + 1) * ulp m
      else (m div ulp m) * ulp m)"

definition toDouble :: "int \<Rightarrow> int" where
  "toDouble x =
     (if x < 0 then - int (roundMagnitude (nat (- x))) else int (roundMagnitude (nat x)))"

definition jsAddOne :: "int \<Rightarrow> int" where
  "jsAddOne n = toDouble (n + 1)"

text \<open>
  \<^verbatim>\<open>Node\<close> objects, the arrays of child ids and the
  attached \<^verbatim>\<open>Ast.TNode\<close> objects are reached through references from several places
  (entries of a node map, handles held by the caller and, after a copy, the nodes of two
  states), so they live in a store and are named by their index in it; nothing is ever
  freed. A \<^verbatim>\<open>State\<close>, its \<^verbatim>\<open>Root\<close>, its node map and its array of terminal ids are
  created together by \<^verbatim>\<open>empty\<close> and by \<^verbatim>\<open>deepCopy\<close> and no operation of this module
  hands one of them to a second owner, so a state holds them by value. The node map
  keeps its entries in insertion order, as a \<^verbatim>\<open>Map\<close> does. A reference is the index
  of an object of the store: the operations follow only references that they are given
  or that they find in the store, and every object stays where it was allocated.
\<close>

type_synonym ref = nat

text \<open>\<^verbatim>\<open>Ast.TNode\<close>: the flag the context reads, and the rest of the fields as one value.\<close>

record AstNode =
  terminalNode :: bool
  astFields :: string

record Node =
  nodeId :: int
  nodeKind :: string
  maybeTokenStart :: "Token option"
  maybeParentId :: "int option"
  childNodeIds :: ref
  maybeAstNode :: "ref option"

record Store =
  nodeObjs :: "Node list"
  arrayObjs :: "int list list"
  astObjs :: "AstNode list"

record State =
  root :: "ref option"
  nodesById :: "(int \<times> ref) list"
  terminalNodeIds :: "int list"
  nodeIdCounter :: int

text \<open>
  The three \<^verbatim>\<open>CommonError.InvariantError\<close>s of the context, by their message: the one of
  \<^verbatim>\<open>expectNode\<close>, and the first and the second of \<^verbatim>\<open>deleteContext\<close> (node id, parent id).
\<close>

datatype ContextError =
    NodeIdNotInState int
  | NodeNotInState int
  | NotListedAsChild int int

section \<open>The parser context: operations\<close>

definition allocNode :: "Store \<Rightarrow> Node \<Rightarrow> Store \<times> ref" where
  "allocNode h n = (h\<lparr>nodeObjs := nodeObjs h @ [n]\<rparr>, length (nodeObjs h))"

definition allocArray :: "Store \<Rightarrow> int list \<Rightarrow> Store \<times> ref" where
  "allocArray h xs = (h\<lparr>arrayObjs := arrayObjs h @ [xs]\<rparr>, length (arrayObjs h))"

definition allocAst :: "Store \<Rightarrow> AstNode \<Rightarrow> Store \<times> ref" where
  "allocAst h a = (h\<lparr>astObjs := astObjs h @ [a]\<rparr>, length (astObjs h))"

text \<open>\<^verbatim>\<open>Array.prototype.push\<close> on the array behind a reference.\<close>

definition arrayPush :: "Store \<Rightarrow> ref \<Rightarrow> int \<Rightarrow> Store" where
  "arrayPush h a v = h\<lparr>arrayObjs := (arrayObjs h)[a := arrayObjs h ! a @ [v]]\<rparr>"

text \<open>\<^verbatim>\<open>Array.prototype.indexOf\<close>: the first index of the value, \<open>None\<close> for \<open>-1\<close>.\<close>

fun indexOf :: "int list \<Rightarrow> int \<Rightarrow> nat option" where
  "indexOf [] v = None"
| "indexOf (x # xs) v = (if x = v then Some 0 else map_option Suc (indexOf xs v))"

definition empty_state :: State where
  "empty_state =
     \<lparr> root = None, nodesById = [], terminalNodeIds = [], nodeIdCounter = 0 \<rparr>"

definition maybeGetNode :: "(int \<times> ref) list \<Rightarrow> int \<Rightarrow> ref option" where
  "maybeGetNode nodes nid = map_of nodes nid"

definition expectNode :: "(int \<times> ref) list \<Rightarrow> int \<Rightarrow> ContextError + ref" where
  "expectNode nodes nid =
     (case maybeGetNode nodes nid of
        None \<Rightarrow> Inl (NodeIdNotInState nid)
      | Some node \<Rightarrow> Inr node)"

definition addChild ::
  "Store \<Rightarrow> State \<Rightarrow> ref option \<Rightarrow> string \<Rightarrow> Token option \<Rightarrow> Store \<times> State \<times> ref"
where
  "addChild h state maybeParent kindOfNode tokStart =
     (let state1 = state\<lparr>nodeIdCounter := jsAddOne (nodeIdCounter state)\<rparr>;
          newNodeId = nodeIdCounter state1;
          h1 = (case maybeParent of
                  Some parent \<Rightarrow> arrayPush h (childNodeIds (nodeObjs h ! parent)) newNodeId
                | None \<Rightarrow> h);
          parentId = (case maybeParent of
                        Some parent \<Rightarrow> Some (nodeId (nodeObjs h ! parent))
                      | None \<Rightarrow> None);
          fresh = allocArray h1 [];
          child = \<lparr> nodeId = nodeIdCounter state1,
                    nodeKind = kindOfNode,
                    maybeTokenStart = tokStart,
                    maybeParentId = parentId,
                    childNodeIds = snd fresh,
                    maybeAstNode = None \<rparr>;
          made = allocNode (fst fresh) child
      in (fst made,
          state1\<lparr>nodesById := AList.update (nodeId child) (snd made) (nodesById state1)\<rparr>,
          snd made))"

definition endContext ::
  "Store \<Rightarrow> State \<Rightarrow> ref \<Rightarrow> ref \<Rightarrow> Store \<times> State \<times> (ContextError + ref option)"
where
  "endContext h state oldNode astNode =
     (let state1 = (if terminalNode (astObjs h ! astNode)
                    then state\<lparr>terminalNodeIds :=
                                 terminalNodeIds state @ [nodeId (nodeObjs h ! oldNode)]\<rparr>
                    else state);
          h1 = h\<lparr>nodeObjs :=
                   (nodeObjs h)[oldNode := (nodeObjs h ! oldNode)\<lparr>maybeAstNode := Some astNode\<rparr>]\<rparr>
      in (h1, state1,
          case maybeParentId (nodeObjs h ! oldNode) of
            Some parentId \<Rightarrow>
              (case expectNode (nodesById state1) parentId of
                 Inl e \<Rightarrow> Inl e
               | Inr parent \<Rightarrow> Inr (Some parent))
          | None \<Rightarrow> Inr None))"

definition deleteContext ::
  "Store \<Rightarrow> State \<Rightarrow> ref \<Rightarrow> Store \<times> State \<times> (ContextError + ref option)"
where
  "deleteContext h state node =
     (let nid = nodeId (nodeObjs h ! node) in
      if map_of (nodesById state) nid = None then (h, state, Inl (NodeNotInState nid))
      else
        let state1 = state\<lparr>nodesById := AList.delete nid (nodesById state)\<rparr>;
            state2 = (case indexOf (terminalNodeIds state) nid of
                        Some terminalIndex \<Rightarrow>
                          state1\<lparr>terminalNodeIds :=
                                   take terminalIndex (terminalNodeIds state)
                                     @ drop (terminalIndex + 1) (terminalNodeIds state)\<rparr>
                      | None \<Rightarrow> state1)
        in case maybeParentId (nodeObjs h ! node) of
             None \<Rightarrow> (h, state2, Inr None)
           | Some parentId \<Rightarrow>
               (case expectNode (nodesById state2) parentId of
                  Inl e \<Rightarrow> (h, state2, Inl e)
                | Inr parent \<Rightarrow>
                    (case indexOf (arrayObjs h ! childNodeIds (nodeObjs h ! parent)) nid of
                       None \<Rightarrow> (h, state2, Inl (NotListedAsChild nid parentId))
                     | Some childNodeIndex \<Rightarrow>
                         (let fresh = allocArray h
                                (take childNodeIndex
                                   (arrayObjs h ! childNodeIds (nodeObjs h ! parent))
                                 @ drop (childNodeIndex + 1)
                                     (arrayObjs h ! childNodeIds (nodeObjs h ! parent)));
                              h1 = (fst fresh)\<lparr>nodeObjs :=
                                     (nodeObjs (fst fresh))
                                       [parent := (nodeObjs (fst fresh) ! parent)
                                                    \<lparr>childNodeIds := snd fresh\<rparr>]\<rparr>
                          in (h1, state2, Inr (Some parent))))))"

text \<open>
  \<^verbatim>\<open>deepCopyNode\<close>: a new object with the fields of the node spread into it, and the
  attached AST object, when there is one, spread into a new object of its own.
\<close>

definition deepCopyNode :: "Store \<Rightarrow> ref \<Rightarrow> Store \<times> ref" where
  "deepCopyNode h node =
     (case maybeAstNode (nodeObjs h ! node) of
        Some ast \<Rightarrow>
          (let copied = allocAst h (astObjs h ! ast)
           in allocNode (fst copied) ((nodeObjs h ! node)\<lparr>maybeAstNode := Some (snd copied)\<rparr>))
      | None \<Rightarrow> allocNode h ((nodeObjs h ! node)\<lparr>maybeAstNode := None\<rparr>))"

text \<open>The \<^verbatim>\<open>forEach\<close> of \<^verbatim>\<open>deepCopy\<close> over the entries of the node map, filling the new map.\<close>

fun copyEntries ::
  "Store \<Rightarrow> (int \<times> ref) list \<Rightarrow> (int \<times> ref) list \<Rightarrow> Store \<times> (int \<times> ref) list"
where
  "copyEntries h [] nodes = (h, nodes)"
| "copyEntries h ((key, val) # rest) nodes =
     copyEntries (fst (deepCopyNode h val)) rest
       (AList.update key (snd (deepCopyNode h val)) nodes)"

definition deepCopy :: "Store \<Rightarrow> State \<Rightarrow> Store \<times> State" where
  "deepCopy h state =
     (let copied = copyEntries h (nodesById state) []
      in (fst copied,
          \<lparr> root = maybeGetNode (snd copied) 0,
            nodesById = snd copied,
            terminalNodeIds = terminalNodeIds state,
            nodeIdCounter = nodeIdCounter state \<rparr>))"

text \<open>
  A driver of the context: several states over one store, each named by its position,
  and the four operations addressed to one of them. \<open>step\<close> also gives the id of the
  node that \<^verbatim>\<open>addChild\<close> returned. An error thrown by \<^verbatim>\<open>endContext\<close> or
  \<^verbatim>\<open>deleteContext\<close> leaves the state as the operation left it.
\<close>

record World =
  store :: Store
  states :: "State list"

datatype Op =
    AddChild nat "ref option" string "Token option"
  | EndContext nat ref ref
  | DeleteContext nat ref
  | DeepCopy nat

fun step :: "World \<Rightarrow> Op \<Rightarrow> World \<times> int option" where
  "step w (AddChild s maybeParent kindOfNode tokStart) =
     (if s < length (states w) then
        (let r = addChild (store w) (states w ! s) maybeParent kindOfNode tokStart
         in (\<lparr> store = fst r, states = (states w)[s := fst (snd r)] \<rparr>,
             Some (nodeId (nodeObjs (fst r) ! snd (snd r)))))
      else (w, None))"
| "step w (EndContext s oldNode astNode) =
     (if s < length (states w) then
        (let r = endContext (store w) (states w ! s) oldNode astNode
         in (\<lparr> store = fst r, states = (states w)[s := fst (snd r)] \<rparr>, None))
      else (w, None))"
| "step w (DeleteContext s node) =
     (if s < length (states w) then
        (let r = deleteContext (store w) (states w ! s) node
         in (\<lparr> store = fst r, states = (states w)[s := fst (snd r)] \<rparr>, None))
      else (w, None))"
| "step w (DeepCopy s) =
     (if s < length (states w) then
        (let r = deepCopy (store w) (states w ! s)
         in (\<lparr> store = fst r, states = states w @ [snd r] \<rparr>, None))
      else (w, None))"

text \<open>
  Running a sequence of operations, with a record of the ids allocated: \<open>hist ! s\<close>
  lists, in order, the ids that \<^verbatim>\<open>addChild\<close> has returned in state \<open>s\<close>, and a copy
  starts with the list of the state it was copied from.
\<close>

fun recordIds :: "Op \<Rightarrow> int option \<Rightarrow> int list list \<Rightarrow> int list list" where
  "recordIds (AddChild s maybeParent kindOfNode tokStart) (Some newId) hist =
     hist[s := hist ! s @ [newId]]"
| "recordIds (DeepCopy s) r hist = (if s < length hist then hist @ [hist ! s] else hist)"
| "recordIds op r hist = hist"

fun run :: "World \<Rightarrow> int list list \<Rightarrow> Op list \<Rightarrow> World \<times> int list list" where
  "run w hist [] = (w, hist)"
| "run w hist (op # ops) =
     run (fst (step w op)) (recordIds op (snd (step w op)) hist) ops"

section \<open>Definitions for stating the properties\<close>

text \<open>
  The text and the line-terminator table that \<^verbatim>\<open>flattenLineTokens\<close> builds, as functions
  of the lines alone: the text of every line followed by its terminator, the terminator
  of the last line left out; one table entry per line, at the offset where the line's
  text ends.
\<close>

fun joinLines :: "TLine list \<Rightarrow> string" where
  "joinLines [] = []"
| "joinLines [l] = lineText l"
| "joinLines (l # l' # ls) = lineText l @ lineTerminator l @ joinLines (l' # ls)"

fun terminatorsFrom :: "TLine list \<Rightarrow> nat \<Rightarrow> LineTerminator list" where
  "terminatorsFrom [] off = []"
| "terminatorsFrom (l # ls) off =
     \<lparr> ltCodeUnit = off + length (lineText l), ltText = lineTerminator l \<rparr>
       # terminatorsFrom ls (off + length (lineText l) + length (lineTerminator l))"

text \<open>Every flat token carries its own position in the array as its \<^verbatim>\<open>flatIndex\<close>.\<close>

definition consistent :: "FlattenedLines \<Rightarrow> bool" where
  "consistent fl \<longleftrightarrow> (\<forall>m<length (flatLineTokens fl). flatIndex (flatLineTokens fl ! m) = m)"

text \<open>
  Two stand-ins for \<^verbatim>\<open>StringUtils.graphemePositionFrom\<close>, one that returns its four
  arguments as the position and one that always throws, and lexer states for the
  examples.
\<close>

definition gpArgs ::
  "string \<Rightarrow> nat \<Rightarrow> nat \<Rightarrow> nat \<Rightarrow> (string \<times> nat \<times> nat \<times> nat) option"
where
  "gpArgs s lineCU lineNo cu = Some (s, lineCU, lineNo, cu)"

definition gpThrows ::
  "string \<Rightarrow> nat \<Rightarrow> nat \<Rightarrow> nat \<Rightarrow> (string \<times> nat \<times> nat \<times> nat) option"
where
  "gpThrows s lineCU lineNo cu = None"

definition lineCommentState :: LexerState where
  "lineCommentState =
     \<lparr> lines =
         [\<lparr> lineText = ''//x'', lineTerminator = [],
             lineTokens = [\<lparr> kind = LineComment, data = ''//x'',
                              positionStart = 0, positionEnd = 3 \<rparr>] \<rparr>] \<rparr>"

definition terminatedLineState :: LexerState where
  "terminatedLineState =
     \<lparr> lines = [\<lparr> lineText = ''a'', lineTerminator = [CHR 0x0A], lineTokens = [] \<rparr>] \<rparr>"

definition emptySecondLineState :: LexerState where
  "emptySecondLineState =
     \<lparr> lines = [\<lparr> lineText = ''a'', lineTerminator = [], lineTokens = [] \<rparr>,
                 \<lparr> lineText = [], lineTerminator = [], lineTokens = [] \<rparr>] \<rparr>"

definition twoLineState :: LexerState where
  "twoLineState =
     \<lparr> lines = [\<lparr> lineText = ''a'', lineTerminator = [CHR 0x0A], lineTokens = [] \<rparr>,
                 \<lparr> lineText = ''b'', lineTerminator = [], lineTokens = [] \<rparr>] \<rparr>"

text \<open>
  The text of the lines as the sentence on concatenation reads (every line with its
  terminator) and as the code builds it (the last terminator omitted); a table whose
  entries are strictly, or weakly, ordered by offset from one entry to the next.
\<close>

definition everyLineWithTerminator :: "TLine list \<Rightarrow> string" where
  "everyLineWithTerminator lns = concat (map (\<lambda>l. lineText l @ lineTerminator l) lns)"

definition lastTerminatorOmitted :: "TLine list \<Rightarrow> string" where
  "lastTerminatorOmitted lns =
     everyLineWithTerminator (butlast lns) @ (if lns = [] then [] else lineText (last lns))"

definition strictlyOrdered :: "LineTerminator list \<Rightarrow> bool" where
  "strictlyOrdered lts = successively (\<lambda>a b. ltCodeUnit a < ltCodeUnit b) lts"

definition weaklyOrdered :: "LineTerminator list \<Rightarrow> bool" where
  "weaklyOrdered lts = successively (\<lambda>a b. ltCodeUnit a \<le> ltCodeUnit b) lts"

text \<open>
  The window of \<^verbatim>\<open>graphemePositionStartFrom\<close> in the words of its description: the offset
  just past the last terminator strictly before an offset, the end offset of the first
  terminator at or after an offset (each with the value to use when there is no such
  terminator), and the part of a table that the scan reads, which ends with the first
  terminator at or after the given offset.
\<close>

definition scanned :: "LineTerminator list \<Rightarrow> nat \<Rightarrow> LineTerminator list" where
  "scanned lts c =
     takeWhile (\<lambda>lt. ltCodeUnit lt < c) lts @ take 1 (dropWhile (\<lambda>lt. ltCodeUnit lt < c) lts)"

definition justPastLastBefore :: "LineTerminator list \<Rightarrow> nat \<Rightarrow> nat \<Rightarrow> nat" where
  "justPastLastBefore lts c none =
     (if filter (\<lambda>lt. ltCodeUnit lt < c) lts = [] then none
      else ltCodeUnit (last (filter (\<lambda>lt. ltCodeUnit lt < c) lts))
             + length (ltText (last (filter (\<lambda>lt. ltCodeUnit lt < c) lts))))"

definition endOfFirstAtOrAfter :: "LineTerminator list \<Rightarrow> nat \<Rightarrow> nat \<Rightarrow> nat" where
  "endOfFirstAtOrAfter lts c none =
     (case find (\<lambda>lt. c \<le> ltCodeUnit lt) lts of
        None \<Rightarrow> none
      | Some lt \<Rightarrow> ltCodeUnit lt + length (ltText lt))"

text \<open>A three-line text, its table in order and reversed, and the token of its second line.\<close>

definition reversedTable :: "LineTerminator list" where
  "reversedTable = [\<lparr> ltCodeUnit = 5, ltText = [CHR 0x0A] \<rparr>, \<lparr> ltCodeUnit = 2, ltText = [CHR 0x0A] \<rparr>]"

definition orderedTable :: "LineTerminator list" where
  "orderedTable = [\<lparr> ltCodeUnit = 2, ltText = [CHR 0x0A] \<rparr>, \<lparr> ltCodeUnit = 5, ltText = [CHR 0x0A] \<rparr>]"

definition threeLineText :: string where
  "threeLineText = ''ab'' @ [CHR 0x0A] @ ''cd'' @ [CHR 0x0A] @ ''ef''"

definition secondLineToken :: Token where
  "secondLineToken =
     \<lparr> kind = Identifier, data = ''cd'',
       positionStart = \<lparr> codeUnit = 3, lineCodeUnit = 0, lineNumber = 1 \<rparr>,
       positionEnd = \<lparr> codeUnit = 5, lineCodeUnit = 2, lineNumber = 1 \<rparr> \<rparr>"

text \<open>
  For a multiline-start kind: its matching content kind, its matching end kind, and the
  kind of the error raised when it is not terminated.
\<close>

fun multilineParts ::
  "LineTokenKind \<Rightarrow> (LineTokenKind \<times> LineTokenKind \<times> UnterminatedMultilineTokenKind) option"
where
  "multilineParts MultilineCommentStart =
     Some (MultilineCommentContent, MultilineCommentEnd, UnterminatedMultilineComment)"
| "multilineParts QuotedIdentifierStart =
     Some (QuotedIdentifierContent, QuotedIdentifierEnd, UnterminatedQuotedIdentifier)"
| "multilineParts TextLiteralStart =
     Some (TextLiteralContent, TextLiteralEnd, UnterminatedText)"
| "multilineParts _ = None"

text \<open>
  The error thrown at a start token that is not terminated: the unterminated-multiline
  error at the grapheme position of the token, or the error of the position
  computation when that throws.
\<close>

definition unterminatedError ::
  "(string \<Rightarrow> nat \<Rightarrow> nat \<Rightarrow> nat \<Rightarrow> 'gp option) \<Rightarrow> FlattenedLines \<Rightarrow> FlatLineToken
     \<Rightarrow> UnterminatedMultilineTokenKind \<Rightarrow> 'gp Thrown"
where
  "unterminatedError gpf fl tok uk =
     (case graphemePositionStartFrom gpf (flText fl) (flLineTerminators fl) tok of
        None \<Rightarrow> GraphemePositionError
      | Some graphemePosition \<Rightarrow> UnterminatedMultilineTokenError graphemePosition uk)"

text \<open>
  The merged token and the merged comment in the words of their description: from the
  start token's start to the end token's end, with the text between the two offsets.
\<close>

definition mergedToken :: "TokenKind \<Rightarrow> string \<Rightarrow> FlatLineToken \<Rightarrow> FlatLineToken \<Rightarrow> Token" where
  "mergedToken k tx tokStart tokEnd =
     \<lparr> kind = k,
       data = substring tx (codeUnit (positionStart tokStart)) (codeUnit (positionEnd tokEnd)),
       positionStart = positionStart tokStart,
       positionEnd = positionEnd tokEnd \<rparr>"

definition mergedComment :: "string \<Rightarrow> FlatLineToken \<Rightarrow> FlatLineToken \<Rightarrow> Comment" where
  "mergedComment tx tokStart tokEnd =
     \<lparr> kind = Multiline,
       data = substring tx (codeUnit (positionStart tokStart)) (codeUnit (positionEnd tokEnd)),
       positionStart = positionStart tokStart,
       positionEnd = positionEnd tokEnd,
       containsNewline =
         (lineNumber (positionStart tokStart) \<noteq> lineNumber (positionEnd tokEnd)) \<rparr>"

text \<open>
  A comment over three lines; a closed comment followed by a text literal that is not
  terminated; a comment start followed at once by a text literal that is not terminated.
\<close>

definition commentState :: LexerState where
  "commentState =
     \<lparr> lines =
         [\<lparr> lineText = ''/*a'', lineTerminator = [CHR 0x0A],
             lineTokens = [\<lparr> kind = MultilineCommentStart, data = ''/*a'',
                              positionStart = 0, positionEnd = 3 \<rparr>] \<rparr>,
          \<lparr> lineText = ''b'', lineTerminator = [CHR 0x0A],
             lineTokens = [\<lparr> kind = MultilineCommentContent, data = ''b'',
                              positionStart = 0, positionEnd = 1 \<rparr>] \<rparr>,
          \<lparr> lineText = ''c*/'', lineTerminator = [],
             lineTokens = [\<lparr> kind = MultilineCommentEnd, data = ''c*/'',
                              positionStart = 0, positionEnd = 3 \<rparr>] \<rparr>] \<rparr>"

definition unterminatedState :: LexerState where
  "unterminatedState =
     \<lparr> lines =
         [\<lparr> lineText = ''/*a'', lineTerminator = [CHR 0x0A],
             lineTokens = [\<lparr> kind = MultilineCommentStart, data = ''/*a'',
                              positionStart = 0, positionEnd = 3 \<rparr>] \<rparr>,
          \<lparr> lineText = ''b*/ '' @ [CHR 0x22] @ ''x'', lineTerminator = [],
             lineTokens = [\<lparr> kind = MultilineCommentEnd, data = ''b*/'',
                              positionStart = 0, positionEnd = 3 \<rparr>,
                           \<lparr> kind = TextLiteralStart, data = [CHR 0x22],
                              positionStart = 4, positionEnd = 5 \<rparr>,
                           \<lparr> kind = TextLiteralContent, data = ''x'',
                              positionStart = 5, positionEnd = 6 \<rparr>] \<rparr>] \<rparr>"

definition strayStartState :: LexerState where
  "strayStartState =
     \<lparr> lines =
         [\<lparr> lineText = ''/*'' @ [CHR 0x22] @ ''x'', lineTerminator = [],
             lineTokens = [\<lparr> kind = MultilineCommentStart, data = ''/*'',
                              positionStart = 0, positionEnd = 2 \<rparr>,
                           \<lparr> kind = TextLiteralStart, data = [CHR 0x22],
                              positionStart = 2, positionEnd = 3 \<rparr>,
                           \<lparr> kind = TextLiteralContent, data = ''x'',
                              positionStart = 3, positionEnd = 4 \<rparr>] \<rparr>] \<rparr>"

text \<open>
  A store and a state in which node 2 records node 1 as its parent while node 1 lists no
  child, and node 2 is among the terminal ids.
\<close>

definition orphanStore :: Store where
  "orphanStore =
     \<lparr> nodeObjs =
         [\<lparr> nodeId = 1, nodeKind = ''Root'', maybeTokenStart = None, maybeParentId = None,
             childNodeIds = 0, maybeAstNode = None \<rparr>,
          \<lparr> nodeId = 2, nodeKind = ''Child'', maybeTokenStart = None, maybeParentId = Some 1,
             childNodeIds = 1, maybeAstNode = None \<rparr>],
       arrayObjs = [[], []],
       astObjs = [] \<rparr>"

definition orphanState :: State where
  "orphanState =
     \<lparr> root = None, nodesById = [(1, 0), (2, 1)], terminalNodeIds = [2], nodeIdCounter = 2 \<rparr>"

text \<open>
  Whether an operation is an \<^verbatim>\<open>addChild\<close> on the state \<open>s\<close>; the invariant of the
  record of allocated ids: one list per state, each strictly increasing and bounded by
  the id counter of its state; and the counters of a world leaving room for \<open>n\<close> calls
  of \<^verbatim>\<open>addChild\<close> in the range where every integer is a double.
\<close>

fun isAddChildOn :: "nat \<Rightarrow> Op \<Rightarrow> bool" where
  "isAddChildOn s (AddChild s' _ _ _) = (s' = s)"
| "isAddChildOn s _ = False"

definition idsIncrease :: "World \<Rightarrow> int list list \<Rightarrow> bool" where
  "idsIncrease w hist \<longleftrightarrow>
     length hist = length (states w)
     \<and> (\<forall>s<length (states w).
          sorted_wrt (<) (hist ! s) \<and> (\<forall>i\<in>set (hist ! s). i \<le> nodeIdCounter (states w ! s)))"

definition countersSafe :: "World \<Rightarrow> nat \<Rightarrow> bool" where
  "countersSafe w n \<longleftrightarrow>
     (\<forall>s<length (states w).
        - (2 ^ 53) \<le> nodeIdCounter (states w ! s)
        \<and> nodeIdCounter (states w ! s) + int n \<le> 2 ^ 53)"

text \<open>
  The store with no objects, the world of one empty state, and a sequence of operations
  that adds a root and a child, deletes the child, copies the state and adds a node to
  the original and to the copy. Then the world of one state without nodes whose id
  counter is \<open>2 ^ 53\<close>, and two calls of \<^verbatim>\<open>addChild\<close> on it.
\<close>

definition emptyStore :: Store where
  "emptyStore = \<lparr> nodeObjs = [], arrayObjs = [], astObjs = [] \<rparr>"

definition startWorld :: World where
  "startWorld = \<lparr> store = emptyStore, states = [empty_state] \<rparr>"

definition backtrackOps :: "Op list" where
  "backtrackOps =
     [AddChild 0 None ''Root'' None,
      AddChild 0 (Some 0) ''Child'' None,
      DeleteContext 0 1,
      DeepCopy 0,
      AddChild 0 (Some 0) ''Again'' None,
      AddChild 1 (Some 2) ''Other'' None]"

definition limitWorld :: World where
  "limitWorld =
     \<lparr> store = emptyStore, states = [empty_state\<lparr>nodeIdCounter := 2 ^ 53\<rparr>] \<rparr>"

definition twoAdds :: "Op list" where
  "twoAdds = [AddChild 0 None ''First'' None, AddChild 0 None ''Second'' None]"

text \<open>
  The child-id list of the node that a state holds under an id, read in a store. Then a
  state with one root node; its copy; the copy after a child is added to its root; and
  the state with one root node whose root reference holds that node.
\<close>

definition childIdsOf :: "Store \<Rightarrow> State \<Rightarrow> int \<Rightarrow> int list option" where
  "childIdsOf h state nid =
     (case map_of (nodesById state) nid of
        None \<Rightarrow> None
      | Some node \<Rightarrow> Some (arrayObjs h ! childNodeIds (nodeObjs h ! node)))"

definition rootAdded :: "Store \<times> State \<times> ref" where
  "rootAdded = addChild emptyStore empty_state None ''Root'' None"

definition rootCopied :: "Store \<times> State" where
  "rootCopied = deepCopy (fst rootAdded) (fst (snd rootAdded))"

definition childAddedToCopy :: "Store \<times> State \<times> ref" where
  "childAddedToCopy =
     addChild (fst rootCopied) (snd rootCopied)
       (maybeGetNode (nodesById (snd rootCopied)) 1) ''Child'' None"

definition rootedState :: State where
  "rootedState = (fst (snd rootAdded))\<lparr>root := maybeGetNode (nodesById (fst (snd rootAdded))) 1\<rparr>"

section \<open>Flattening: auxiliary lemmas\<close>

lemma flattenLoop_step:
  "k < length lns \<Longrightarrow>
   flattenLoop lns k tx lts acc off fi =
     flattenLoop lns (k + 1)
       (if k \<noteq> length lns - 1
        then tx @ lineText (lns ! k) @ lineTerminator (lns ! k)
        else tx @ lineText (lns ! k))
       (lts @ [\<lparr> ltCodeUnit = off + length (lineText (lns ! k)),
                   ltText = lineTerminator (lns ! k) \<rparr>])
       (fst (flattenTokens (lineTokens (lns ! k)) off k acc fi))
       (off + length (lineText (lns ! k)) + length (lineTerminator (lns ! k)))
       (snd (flattenTokens (lineTokens (lns ! k)) off k acc fi))"
  by (rule trans [OF flattenLoop.simps]) simp

lemma flattenLoop_stop:
  "\<not> k < length lns \<Longrightarrow>
   flattenLoop lns k tx lts acc off fi =
     \<lparr> flText = tx, flLineTerminators = lts, flatLineTokens = acc \<rparr>"
  by (rule trans [OF flattenLoop.simps]) simp

lemma flattenTokens_snd: "snd (flattenTokens ts off ln acc fi) = fi + length ts"
  by (induction ts arbitrary: acc fi) auto

lemma flattenTokens_length: "length (fst (flattenTokens ts off ln acc fi)) = length acc + length ts"
  by (induction ts arbitrary: acc fi) auto

lemma flattenTokens_flatIndex:
  "fi = length acc \<Longrightarrow> \<forall>i<length acc. flatIndex (acc ! i) = i \<Longrightarrow>
   \<forall>i<length (fst (flattenTokens ts off ln acc fi)). flatIndex (fst (flattenTokens ts off ln acc fi) ! i) = i"
proof (induction ts arbitrary: acc fi)
  case Nil
  then show ?case by simp
next
  case (Cons t ts)
  show ?case
    unfolding flattenTokens.simps
  proof (rule Cons.IH)
    show "fi + 1 = length (acc @ [\<lparr>kind = kind t, data = data t,
            positionStart = \<lparr>codeUnit = off + positionStart t, lineCodeUnit = positionStart t, lineNumber = ln\<rparr>,
            positionEnd = \<lparr>codeUnit = off + positionEnd t, lineCodeUnit = positionEnd t, lineNumber = ln\<rparr>,
            flatIndex = fi\<rparr>])"
      using Cons.prems(1) by simp
  next
    show "\<forall>i<length (acc @ [\<lparr>kind = kind t, data = data t,
            positionStart = \<lparr>codeUnit = off + positionStart t, lineCodeUnit = positionStart t, lineNumber = ln\<rparr>,
            positionEnd = \<lparr>codeUnit = off + positionEnd t, lineCodeUnit = positionEnd t, lineNumber = ln\<rparr>,
            flatIndex = fi\<rparr>]).
          flatIndex ((acc @ [\<lparr>kind = kind t, data = data t,
            positionStart = \<lparr>codeUnit = off + positionStart t, lineCodeUnit = positionStart t, lineNumber = ln\<rparr>,
            positionEnd = \<lparr>codeUnit = off + positionEnd t, lineCodeUnit = positionEnd t, lineNumber = ln\<rparr>,
            flatIndex = fi\<rparr>]) ! i) = i"
      using Cons.prems by (auto simp: nth_append less_Suc_eq)
  qed
qed

lemma flattenTokens_lineNumber:
  "\<forall>t\<in>set acc. lineNumber (positionStart t) = lineNumber (positionEnd t) \<Longrightarrow>
   \<forall>t\<in>set (fst (flattenTokens ts off ln acc fi)). lineNumber (positionStart t) = lineNumber (positionEnd t)"
proof (induction ts arbitrary: acc fi)
  case Nil
  then show ?case by simp
next
  case (Cons t ts)
  show ?case
    unfolding flattenTokens.simps
    by (rule Cons.IH) (use Cons.prems in simp)
qed

lemma flattenLoop_flatIndex:
  "fi = length acc \<Longrightarrow> \<forall>i<length acc. flatIndex (acc ! i) = i \<Longrightarrow>
   \<forall>i<length (flatLineTokens (flattenLoop lns k tx lts acc off fi)).
      flatIndex (flatLineTokens (flattenLoop lns k tx lts acc off fi) ! i) = i"
proof (induction lns k tx lts acc off fi rule: flattenLoop.induct)
  case (1 lns k tx lts acc off fi)
  show ?case
  proof (cases "k < length lns")
    case True
    have a: "snd (flattenTokens (lineTokens (lns ! k)) off k acc fi)
               = length (fst (flattenTokens (lineTokens (lns ! k)) off k acc fi))"
      using "1.prems"(1) by (simp add: flattenTokens_snd flattenTokens_length)
    have b: "\<forall>i<length (fst (flattenTokens (lineTokens (lns ! k)) off k acc fi)).
               flatIndex (fst (flattenTokens (lineTokens (lns ! k)) off k acc fi) ! i) = i"
      using flattenTokens_flatIndex [OF "1.prems"] .
    show ?thesis
      using "1.IH" [OF True a b] True by (simp add: flattenLoop.simps [of lns k tx lts acc off fi])
  next
    case False
    then show ?thesis using "1.prems"(2) by (simp add: flattenLoop.simps [of lns k tx lts acc off fi])
  qed
qed

lemma flattenLoop_lineNumber:
  "\<forall>t\<in>set acc. lineNumber (positionStart t) = lineNumber (positionEnd t) \<Longrightarrow>
   \<forall>t\<in>set (flatLineTokens (flattenLoop lns k tx lts acc off fi)).
      lineNumber (positionStart t) = lineNumber (positionEnd t)"
proof (induction lns k tx lts acc off fi rule: flattenLoop.induct)
  case (1 lns k tx lts acc off fi)
  show ?case
  proof (cases "k < length lns")
    case True
    show ?thesis
      using "1.IH" [OF True flattenTokens_lineNumber [OF "1.prems"]] True
      by (simp add: flattenLoop.simps [of lns k tx lts acc off fi])
  next
    case False
    then show ?thesis using "1.prems" by (simp add: flattenLoop.simps [of lns k tx lts acc off fi])
  qed
qed

lemma flat_flatIndex:
  "i < length (flatLineTokens (flattenLineTokens st)) \<Longrightarrow>
   flatIndex (flatLineTokens (flattenLineTokens st) ! i) = i"
  using flattenLoop_flatIndex [of 0 "[]"] by (simp add: flattenLineTokens_def)

lemma flat_lineNumber:
  "i < length (flatLineTokens (flattenLineTokens st)) \<Longrightarrow>
   lineNumber (positionStart (flatLineTokens (flattenLineTokens st) ! i))
     = lineNumber (positionEnd (flatLineTokens (flattenLineTokens st) ! i))"
  using flattenLoop_lineNumber [of "[]" "lines st" 0 "[]" "[]" 0 0] nth_mem
  unfolding flattenLineTokens_def by fastforce

lemma joinLines_closed:
  "joinLines lns =
     concat (map (\<lambda>l. lineText l @ lineTerminator l) (butlast lns))
       @ (if lns = [] then [] else lineText (last lns))"
  by (induction lns rule: joinLines.induct) simp_all

lemma flattenLoop_text:
  "flText (flattenLoop lns k tx lts acc off fi) = tx @ joinLines (drop k lns)"
proof (induction lns k tx lts acc off fi rule: flattenLoop.induct)
  case (1 lns k tx lts acc off fi)
  show ?case
  proof (cases "k < length lns")
    case True
    let ?tx = "if k \<noteq> length lns - 1
               then tx @ lineText (lns ! k) @ lineTerminator (lns ! k)
               else tx @ lineText (lns ! k)"
    have d: "drop k lns = lns ! k # drop (k + 1) lns"
      using True by (simp add: Cons_nth_drop_Suc)
    have "flText (flattenLoop lns k tx lts acc off fi) = ?tx @ joinLines (drop (k + 1) lns)"
      by (simp only: flattenLoop_step [OF True] "1.IH" [OF True])
    also have "\<dots> = tx @ joinLines (lns ! k # drop (k + 1) lns)"
    proof (cases "drop (k + 1) lns")
      case Nil
      then have "k = length lns - 1" using True by simp
      then show ?thesis using Nil by simp
    next
      case (Cons l' ls)
      then have "k \<noteq> length lns - 1" using True by auto
      then show ?thesis using Cons by simp
    qed
    finally show ?thesis using d by simp
  next
    case False
    then show ?thesis by (simp add: flattenLoop_stop)
  qed
qed

lemma flattenLoop_terminators:
  "flLineTerminators (flattenLoop lns k tx lts acc off fi) = lts @ terminatorsFrom (drop k lns) off"
proof (induction lns k tx lts acc off fi rule: flattenLoop.induct)
  case (1 lns k tx lts acc off fi)
  show ?case
  proof (cases "k < length lns")
    case True
    have d: "drop k lns = lns ! k # drop (k + 1) lns"
      using True by (simp add: Cons_nth_drop_Suc)
    have "flLineTerminators (flattenLoop lns k tx lts acc off fi) =
            (lts @ [\<lparr> ltCodeUnit = off + length (lineText (lns ! k)),
                         ltText = lineTerminator (lns ! k) \<rparr>])
              @ terminatorsFrom (drop (k + 1) lns)
                  (off + length (lineText (lns ! k)) + length (lineTerminator (lns ! k)))"
      by (simp only: flattenLoop_step [OF True] "1.IH" [OF True])
    then show ?thesis using d by simp
  next
    case False
    then show ?thesis by (simp add: flattenLoop_stop)
  qed
qed

lemma flatten_text: "flText (flattenLineTokens st) = joinLines (lines st)"
  by (simp add: flattenLineTokens_def flattenLoop_text)

lemma flatten_terminators:
  "flLineTerminators (flattenLineTokens st) = terminatorsFrom (lines st) 0"
  by (simp add: flattenLineTokens_def flattenLoop_terminators)

lemma terminatorsFrom_length: "length (terminatorsFrom lns off) = length lns"
  by (induction lns arbitrary: off) simp_all

lemma terminatorsFrom_step:
  "Suc i < length lns \<Longrightarrow>
   ltCodeUnit (terminatorsFrom lns off ! Suc i) =
     ltCodeUnit (terminatorsFrom lns off ! i) + length (lineTerminator (lns ! i))
       + length (lineText (lns ! Suc i))"
proof (induction lns arbitrary: off i)
  case Nil
  then show ?case by simp
next
  case (Cons l ls)
  show ?case
  proof (cases i)
    case 0
    then obtain l' ls' where "ls = l' # ls'" using Cons.prems by (cases ls) auto
    then show ?thesis using 0 by simp
  next
    case (Suc j)
    then show ?thesis using Cons.IH [of j] Cons.prems by simp
  qed
qed

section \<open>Collecting a content run and assembling: auxiliary lemmas\<close>

lemma collectLoop_ge: "j \<le> fst (collectLoop flat ck j acc)"
proof (induction flat ck j acc rule: collectLoop.induct)
  case (1 flat ck j acc)
  show ?case
  proof (cases "j < length flat \<and> kind (flat ! j) = ck")
    case True
    then have "j + 1 \<le> fst (collectLoop flat ck (j + 1) (acc @ [flat ! j]))"
      using "1.IH" by simp
    moreover have "collectLoop flat ck j acc = collectLoop flat ck (j + 1) (acc @ [flat ! j])"
      using True by (subst collectLoop.simps) simp
    ultimately show ?thesis by simp
  next
    case False
    then have "collectLoop flat ck j acc = (j, acc)"
      by (subst collectLoop.simps) auto
    then show ?thesis by simp
  qed
qed

lemma collectLoop_stops_at:
  "j \<le> e \<Longrightarrow> e \<le> length flat \<Longrightarrow> (\<forall>m. j \<le> m \<and> m < e \<longrightarrow> kind (flat ! m) = ck) \<Longrightarrow>
   (e < length flat \<longrightarrow> kind (flat ! e) \<noteq> ck) \<Longrightarrow>
   fst (collectLoop flat ck j acc) = e"
proof (induction flat ck j acc rule: collectLoop.induct)
  case (1 flat ck j acc)
  show ?case
  proof (cases "j < e")
    case True
    then have c: "j < length flat" "kind (flat ! j) = ck"
      using "1.prems" by auto
    then have "collectLoop flat ck j acc = collectLoop flat ck (j + 1) (acc @ [flat ! j])"
      by (subst collectLoop.simps) simp
    moreover have "fst (collectLoop flat ck (j + 1) (acc @ [flat ! j])) = e"
      using "1.IH" c True "1.prems" by simp
    ultimately show ?thesis by simp
  next
    case False
    then have "j = e" using "1.prems"(1) by simp
    then have "collectLoop flat ck j acc = (j, acc)"
      using "1.prems" by (subst collectLoop.simps) auto
    then show ?thesis using \<open>j = e\<close> by simp
  qed
qed

lemma maybeTokenEnd_collect:
  "maybeTokenEnd (collectWhileContent flat t ck)
     = at flat (fst (collectLoop flat ck (flatIndex t + 1) []))"
  by (simp add: collectWhileContent_def Let_def)

lemma at_Some: "at xs i = Some x \<longleftrightarrow> i < length xs \<and> x = xs ! i"
  by (auto simp: at_def)

lemma consistent_flatten: "consistent (flattenLineTokens st)"
  by (simp add: consistent_def flat_flatIndex)

lemma tokenEnd_index:
  assumes "consistent fl" and "i < length (flatLineTokens fl)"
    and "maybeTokenEnd (collectWhileContent (flatLineTokens fl) (flatLineTokens fl ! i) ck) = Some tokenEnd"
  shows "i < flatIndex tokenEnd"
proof -
  let ?e = "fst (collectLoop (flatLineTokens fl) ck (i + 1) [])"
  have fi: "flatIndex (flatLineTokens fl ! i) = i"
    using assms(1,2) by (simp add: consistent_def)
  have "at (flatLineTokens fl) ?e = Some tokenEnd"
    using assms(3) by (simp add: maybeTokenEnd_collect fi)
  then have "?e < length (flatLineTokens fl)" "tokenEnd = flatLineTokens fl ! ?e"
    by (simp_all add: at_Some)
  then have "flatIndex tokenEnd = ?e"
    using assms(1) by (simp add: consistent_def)
  moreover have "i + 1 \<le> ?e" by (rule collectLoop_ge)
  ultimately show ?thesis by simp
qed

lemma factoryStep_progress:
  assumes "consistent fl" and "i < length (flatLineTokens fl)"
    and "factoryStep gpf fl i toks comms = Inr (i', t', c')"
  shows "i < i'"
  using assms(3)
  by (auto simp: factoryStep_def Let_def readMultilineComment_def readQuotedIdentifier_def
        readTextLiteral_def split: if_splits option.splits sum.splits
        intro: less_SucI dest: tokenEnd_index [OF assms(1,2)])

lemma factoryLoop_stop:
  "\<not> i < length (flatLineTokens fl) \<Longrightarrow> factoryLoop gpf fl i toks comms = Some (Inr (toks, comms))"
  by (subst factoryLoop.simps) simp

lemma factoryLoop_throw:
  "i < length (flatLineTokens fl) \<Longrightarrow> factoryStep gpf fl i toks comms = Inl e \<Longrightarrow>
   factoryLoop gpf fl i toks comms = Some (Inl e)"
  by (subst factoryLoop.simps) simp

lemma factoryLoop_next:
  "i < length (flatLineTokens fl) \<Longrightarrow> factoryStep gpf fl i toks comms = Inr (i', t', c') \<Longrightarrow>
   factoryLoop gpf fl i toks comms = factoryLoop gpf fl i' t' c'"
  by (subst factoryLoop.simps) simp

lemma factoryLoop_returns:
  assumes "consistent fl"
  shows "\<exists>r. factoryLoop gpf fl i toks comms = Some r"
proof (induction "length (flatLineTokens fl) - i" arbitrary: i toks comms rule: less_induct)
  case less
  show ?case
  proof (cases "i < length (flatLineTokens fl)")
    case False
    then show ?thesis by (simp add: factoryLoop_stop)
  next
    case True
    show ?thesis
    proof (cases "factoryStep gpf fl i toks comms")
      case (Inl e)
      then show ?thesis using True by (simp add: factoryLoop_throw)
    next
      case (Inr nxt)
      obtain i' t' c' where n: "nxt = (i', t', c')" by (cases nxt) auto
      have "i < i'" using factoryStep_progress [OF assms True] Inr n by simp
      then have "length (flatLineTokens fl) - i' < length (flatLineTokens fl) - i"
        using True by simp
      then have "\<exists>r. factoryLoop gpf fl i' t' c' = Some r" by (rule less)
      moreover have "factoryLoop gpf fl i toks comms = factoryLoop gpf fl i' t' c'"
        using Inr n True by (simp add: factoryLoop_next)
      ultimately show ?thesis by simp
    qed
  qed
qed

lemma factory_returns: "\<exists>r. factory gpf st = Some r"
proof -
  obtain r where "factoryLoop gpf (flattenLineTokens st) 0 [] [] = Some r"
    using factoryLoop_returns [OF consistent_flatten] by blast
  then show ?thesis
    by (cases r) (auto simp: factory_def Let_def split: prod.splits)
qed

lemma tryFrom_returns: "\<exists>r. tryFrom gpf st = Some r"
proof -
  obtain r where "factory gpf st = Some r" using factory_returns by blast
  then show ?thesis by (cases r) (simp_all add: tryFrom_def)
qed

lemma tryFrom_snapshot:
  "tryFrom gpf st = Some (Inr snap) \<Longrightarrow>
   snapText snap = flText (flattenLineTokens st)
   \<and> snapLineTerminators snap = flLineTerminators (flattenLineTokens st)"
  by (auto simp: tryFrom_def factory_def Let_def split: option.splits sum.splits prod.splits)

text \<open>The equations that evaluate the lexer on a concrete state.\<close>

lemmas eval_flatten =
  flattenLineTokens_def flattenLoop.simps collectLoop.simps factoryLoop.simps factoryStep_def
  factory_def tryFrom_def readLineComment_def readSingleLineMultilineComment_def
  readMultilineComment_def readQuotedIdentifier_def readTextLiteral_def collectWhileContent_def
  at_def graphemePositionStartFrom_def substring_def Let_def

section \<open>The window of a position: auxiliary lemmas\<close>

lemma windowLoop_eq:
  "windowLoop lts s e a b =
     (justPastLastBefore (scanned lts e) s a, endOfFirstAtOrAfter lts e b)"
proof (induction lts arbitrary: a)
  case Nil
  then show ?case by (simp add: justPastLastBefore_def scanned_def endOfFirstAtOrAfter_def)
next
  case (Cons lt rest)
  show ?case
  proof (cases "e \<le> ltCodeUnit lt")
    case True
    then show ?thesis
      by (simp add: justPastLastBefore_def scanned_def endOfFirstAtOrAfter_def)
  next
    case False
    then have sc: "scanned (lt # rest) e = lt # scanned rest e"
      by (simp add: scanned_def)
    show ?thesis
      using False Cons.IH
      by (simp add: sc justPastLastBefore_def endOfFirstAtOrAfter_def Let_def)
  qed
qed

lemma scanned_filter:
  assumes "sorted_wrt (\<lambda>a b. ltCodeUnit a \<le> ltCodeUnit b) lts" and "s \<le> e"
  shows "filter (\<lambda>lt. ltCodeUnit lt < s) (scanned lts e) = filter (\<lambda>lt. ltCodeUnit lt < s) lts"
proof -
  let ?T = "takeWhile (\<lambda>lt. ltCodeUnit lt < e) lts"
  let ?D = "dropWhile (\<lambda>lt. ltCodeUnit lt < e) lts"
  have split: "lts = ?T @ ?D" by simp
  have "\<forall>lt\<in>set ?D. s \<le> ltCodeUnit lt"
  proof (cases ?D)
    case Nil
    then show ?thesis by (simp only: list.set ball_empty)
  next
    case (Cons d ds)
    then have "e \<le> ltCodeUnit d"
      using hd_dropWhile [of "\<lambda>lt. ltCodeUnit lt < e" lts] by fastforce
    moreover have "sorted_wrt (\<lambda>a b. ltCodeUnit a \<le> ltCodeUnit b) ?D"
      using assms(1) split by (metis sorted_wrt_append)
    ultimately show ?thesis using Cons assms(2) by fastforce
  qed
  then have d: "filter (\<lambda>lt. ltCodeUnit lt < s) ?D = []"
    by (auto simp: filter_empty_conv)
  have "\<forall>lt\<in>set (take 1 ?D). s \<le> ltCodeUnit lt"
    using \<open>\<forall>lt\<in>set ?D. s \<le> ltCodeUnit lt\<close> by (meson in_set_takeD)
  then have t: "filter (\<lambda>lt. ltCodeUnit lt < s) (take 1 ?D) = []"
    by (auto simp: filter_empty_conv)
  have "filter (\<lambda>lt. ltCodeUnit lt < s) lts = filter (\<lambda>lt. ltCodeUnit lt < s) ?T"
    using d by (subst split) (simp only: filter_append append_Nil2)
  then show ?thesis using t by (simp add: scanned_def)
qed

section \<open>Multiline constructs: auxiliary lemmas\<close>

lemma multilineParts_Some:
  "multilineParts k = Some (ck, ek, uk) \<longleftrightarrow>
     (k = MultilineCommentStart \<and> ck = MultilineCommentContent \<and> ek = MultilineCommentEnd
        \<and> uk = UnterminatedMultilineComment)
   \<or> (k = QuotedIdentifierStart \<and> ck = QuotedIdentifierContent \<and> ek = QuotedIdentifierEnd
        \<and> uk = UnterminatedQuotedIdentifier)
   \<or> (k = TextLiteralStart \<and> ck = TextLiteralContent \<and> ek = TextLiteralEnd
        \<and> uk = UnterminatedText)"
  by (cases k) auto

lemma multilineParts_None:
  "multilineParts k = None \<longleftrightarrow>
     k \<noteq> MultilineCommentStart \<and> k \<noteq> QuotedIdentifierStart \<and> k \<noteq> TextLiteralStart"
  by (cases k) auto

lemma collect_closed:
  assumes "consistent fl" and "i < e" and "e < length (flatLineTokens fl)"
    and "\<forall>m. i < m \<and> m < e \<longrightarrow> kind (flatLineTokens fl ! m) = ck"
    and "kind (flatLineTokens fl ! e) \<noteq> ck"
  shows "maybeTokenEnd (collectWhileContent (flatLineTokens fl) (flatLineTokens fl ! i) ck)
           = Some (flatLineTokens fl ! e)"
proof -
  have fi: "flatIndex (flatLineTokens fl ! i) = i"
    using assms(1,2,3) by (simp add: consistent_def)
  have "fst (collectLoop (flatLineTokens fl) ck (i + 1) []) = e"
    using assms(2,3,4,5) by (intro collectLoop_stops_at) auto
  then show ?thesis
    using assms(3) by (simp add: maybeTokenEnd_collect fi at_def)
qed

lemma collect_unterminated:
  assumes "consistent fl" and "k < length (flatLineTokens fl)"
    and "\<forall>m. k < m \<and> m < length (flatLineTokens fl) \<longrightarrow> kind (flatLineTokens fl ! m) = ck"
  shows "maybeTokenEnd (collectWhileContent (flatLineTokens fl) (flatLineTokens fl ! k) ck) = None"
proof -
  have fi: "flatIndex (flatLineTokens fl ! k) = k"
    using assms(1,2) by (simp add: consistent_def)
  have "fst (collectLoop (flatLineTokens fl) ck (k + 1) []) = length (flatLineTokens fl)"
    using assms(2,3) by (intro collectLoop_stops_at) auto
  then show ?thesis
    by (simp add: maybeTokenEnd_collect fi at_def)
qed

lemma factoryStep_merged:
  assumes "consistent fl" and "i < e" and "e < length (flatLineTokens fl)"
    and "multilineParts (kind (flatLineTokens fl ! i)) = Some (ck, ek, uk)"
    and "\<forall>m. i < m \<and> m < e \<longrightarrow> kind (flatLineTokens fl ! m) = ck"
    and "kind (flatLineTokens fl ! e) = ek"
  shows "factoryStep gpf fl i toks comms =
     (if kind (flatLineTokens fl ! i) = MultilineCommentStart then
        Inr (e + 1, toks,
             comms @
               [\<lparr> kind = Multiline,
                   data = substring (flText fl)
                            (codeUnit (positionStart (flatLineTokens fl ! i)))
                            (codeUnit (positionEnd (flatLineTokens fl ! e))),
                   positionStart = positionStart (flatLineTokens fl ! i),
                   positionEnd = positionEnd (flatLineTokens fl ! e),
                   containsNewline =
                     (lineNumber (positionStart (flatLineTokens fl ! i))
                        \<noteq> lineNumber (positionEnd (flatLineTokens fl ! e))) \<rparr>])
      else
        Inr (e + 1,
             toks @
               [\<lparr> kind = (if kind (flatLineTokens fl ! i) = QuotedIdentifierStart
                          then Identifier else TextLiteral),
                   data = substring (flText fl)
                            (codeUnit (positionStart (flatLineTokens fl ! i)))
                            (codeUnit (positionEnd (flatLineTokens fl ! e))),
                   positionStart = positionStart (flatLineTokens fl ! i),
                   positionEnd = positionEnd (flatLineTokens fl ! e) \<rparr>],
             comms))"
proof -
  have ne: "kind (flatLineTokens fl ! e) \<noteq> ck"
    using assms(4,6) by (auto simp: multilineParts_Some)
  have c: "maybeTokenEnd (collectWhileContent (flatLineTokens fl) (flatLineTokens fl ! i) ck)
             = Some (flatLineTokens fl ! e)"
    by (rule collect_closed [OF assms(1,2,3,5) ne])
  have fe: "flatIndex (flatLineTokens fl ! e) = e"
    using assms(1,3) by (simp add: consistent_def)
  consider
      (mc) "kind (flatLineTokens fl ! i) = MultilineCommentStart" "ck = MultilineCommentContent"
           "ek = MultilineCommentEnd"
    | (qi) "kind (flatLineTokens fl ! i) = QuotedIdentifierStart" "ck = QuotedIdentifierContent"
           "ek = QuotedIdentifierEnd"
    | (tl) "kind (flatLineTokens fl ! i) = TextLiteralStart" "ck = TextLiteralContent"
           "ek = TextLiteralEnd"
    using assms(4) by (auto simp: multilineParts_Some)
  then show ?thesis
  proof cases
    case mc
    then show ?thesis
      using c fe assms(6) by (simp add: factoryStep_def Let_def readMultilineComment_def)
  next
    case qi
    then show ?thesis
      using c fe assms(6) by (simp add: factoryStep_def Let_def readQuotedIdentifier_def)
  next
    case tl
    then show ?thesis
      using c fe assms(6) by (simp add: factoryStep_def Let_def readTextLiteral_def)
  qed
qed

lemma factoryStep_unterminated:
  assumes "consistent fl" and "k < length (flatLineTokens fl)"
    and "multilineParts (kind (flatLineTokens fl ! k)) = Some (ck, ek, uk)"
    and "\<forall>m. k < m \<and> m < length (flatLineTokens fl) \<longrightarrow> kind (flatLineTokens fl ! m) = ck"
  shows "factoryStep gpf fl k toks comms =
           Inl (unterminatedError gpf fl (flatLineTokens fl ! k) uk)"
proof -
  have c: "maybeTokenEnd (collectWhileContent (flatLineTokens fl) (flatLineTokens fl ! k) ck) = None"
    by (rule collect_unterminated [OF assms(1,2,4)])
  consider
      (mc) "kind (flatLineTokens fl ! k) = MultilineCommentStart" "ck = MultilineCommentContent"
           "uk = UnterminatedMultilineComment"
    | (qi) "kind (flatLineTokens fl ! k) = QuotedIdentifierStart" "ck = QuotedIdentifierContent"
           "uk = UnterminatedQuotedIdentifier"
    | (tl) "kind (flatLineTokens fl ! k) = TextLiteralStart" "ck = TextLiteralContent"
           "uk = UnterminatedText"
    using assms(3) by (auto simp: multilineParts_Some)
  then show ?thesis
  proof cases
    case mc
    then show ?thesis
      using c
      by (simp add: factoryStep_def Let_def readMultilineComment_def unterminatedError_def
            split: option.splits)
  next
    case qi
    then show ?thesis
      using c
      by (simp add: factoryStep_def Let_def readQuotedIdentifier_def unterminatedError_def
            split: option.splits)
  next
    case tl
    then show ?thesis
      using c
      by (simp add: factoryStep_def Let_def readTextLiteral_def unterminatedError_def
            split: option.splits)
  qed
qed

lemma factoryStep_plain:
  assumes "multilineParts (kind (flatLineTokens fl ! i)) = None"
  shows "\<exists>t' c'. factoryStep gpf fl i toks comms = Inr (i + 1, t', c')"
  using assms by (auto simp: factoryStep_def Let_def multilineParts_None)

lemma factoryLoop_reaches_unterminated:
  assumes "consistent fl" and "k < length (flatLineTokens fl)"
    and "multilineParts (kind (flatLineTokens fl ! k)) = Some (ck, ek, uk)"
    and "\<forall>m. k < m \<and> m < length (flatLineTokens fl) \<longrightarrow> kind (flatLineTokens fl ! m) = ck"
    and "\<forall>i<k. \<forall>ck' ek' uk'. multilineParts (kind (flatLineTokens fl ! i)) = Some (ck', ek', uk') \<longrightarrow>
           (\<exists>e. i < e \<and> e < k \<and> (\<forall>m. i < m \<and> m < e \<longrightarrow> kind (flatLineTokens fl ! m) = ck')
                \<and> kind (flatLineTokens fl ! e) = ek')"
    and "i \<le> k"
  shows "factoryLoop gpf fl i toks comms =
           Some (Inl (unterminatedError gpf fl (flatLineTokens fl ! k) uk))"
  using assms(6)
proof (induction "k - i" arbitrary: i toks comms rule: less_induct)
  case less
  show ?case
  proof (cases "i = k")
    case True
    then show ?thesis
      using factoryLoop_throw [OF assms(2) factoryStep_unterminated [OF assms(1,2,3,4)]]
      by simp
  next
    case False
    then have ik: "i < k" using less.prems by simp
    then have il: "i < length (flatLineTokens fl)" using assms(2) by simp
    show ?thesis
    proof (cases "multilineParts (kind (flatLineTokens fl ! i))")
      case None
      then obtain t' c' where st: "factoryStep gpf fl i toks comms = Inr (i + 1, t', c')"
        using factoryStep_plain by blast
      have "factoryLoop gpf fl (i + 1) t' c' =
              Some (Inl (unterminatedError gpf fl (flatLineTokens fl ! k) uk))"
        using ik by (intro less) auto
      then show ?thesis using factoryLoop_next [OF il st] by simp
    next
      case (Some parts)
      obtain ck' ek' uk' where p: "parts = (ck', ek', uk')" by (cases parts) auto
      obtain e where e: "i < e" "e < k"
          "\<forall>m. i < m \<and> m < e \<longrightarrow> kind (flatLineTokens fl ! m) = ck'"
          "kind (flatLineTokens fl ! e) = ek'"
        using assms(5) ik Some p by blast
      have el: "e < length (flatLineTokens fl)" using e(2) assms(2) by simp
      obtain t' c' where st: "factoryStep gpf fl i toks comms = Inr (e + 1, t', c')"
        using factoryStep_merged [OF assms(1) e(1) el _ e(3,4), of uk' gpf toks comms] Some p
        by (cases "kind (flatLineTokens fl ! i) = MultilineCommentStart") auto
      have "factoryLoop gpf fl (e + 1) t' c' =
              Some (Inl (unterminatedError gpf fl (flatLineTokens fl ! k) uk))"
        using e(1,2) by (intro less) auto
      then show ?thesis using factoryLoop_next [OF il st] by simp
    qed
  qed
qed

text \<open>The flattened form of the example states.\<close>

lemma flat_commentState:
  "flattenLineTokens commentState =
     \<lparr> flText = ''/*a'' @ [CHR 0x0A] @ ''b'' @ [CHR 0x0A] @ ''c*/'',
       flLineTerminators =
         [\<lparr> ltCodeUnit = 3, ltText = [CHR 0x0A] \<rparr>, \<lparr> ltCodeUnit = 5, ltText = [CHR 0x0A] \<rparr>,
          \<lparr> ltCodeUnit = 9, ltText = [] \<rparr>],
       flatLineTokens =
         [\<lparr> kind = MultilineCommentStart, data = ''/*a'',
             positionStart = \<lparr> codeUnit = 0, lineCodeUnit = 0, lineNumber = 0 \<rparr>,
             positionEnd = \<lparr> codeUnit = 3, lineCodeUnit = 3, lineNumber = 0 \<rparr>,
             flatIndex = 0 \<rparr>,
          \<lparr> kind = MultilineCommentContent, data = ''b'',
             positionStart = \<lparr> codeUnit = 4, lineCodeUnit = 0, lineNumber = 1 \<rparr>,
             positionEnd = \<lparr> codeUnit = 5, lineCodeUnit = 1, lineNumber = 1 \<rparr>,
             flatIndex = 1 \<rparr>,
          \<lparr> kind = MultilineCommentEnd, data = ''c*/'',
             positionStart = \<lparr> codeUnit = 6, lineCodeUnit = 0, lineNumber = 2 \<rparr>,
             positionEnd = \<lparr> codeUnit = 9, lineCodeUnit = 3, lineNumber = 2 \<rparr>,
             flatIndex = 2 \<rparr>] \<rparr>"
  by (simp add: commentState_def flattenLineTokens_def flattenLoop.simps)

lemma flat_unterminatedState:
  "flattenLineTokens unterminatedState =
     \<lparr> flText = ''/*a'' @ [CHR 0x0A] @ ''b*/ '' @ [CHR 0x22] @ ''x'',
       flLineTerminators =
         [\<lparr> ltCodeUnit = 3, ltText = [CHR 0x0A] \<rparr>, \<lparr> ltCodeUnit = 10, ltText = [] \<rparr>],
       flatLineTokens =
         [\<lparr> kind = MultilineCommentStart, data = ''/*a'',
             positionStart = \<lparr> codeUnit = 0, lineCodeUnit = 0, lineNumber = 0 \<rparr>,
             positionEnd = \<lparr> codeUnit = 3, lineCodeUnit = 3, lineNumber = 0 \<rparr>,
             flatIndex = 0 \<rparr>,
          \<lparr> kind = MultilineCommentEnd, data = ''b*/'',
             positionStart = \<lparr> codeUnit = 4, lineCodeUnit = 0, lineNumber = 1 \<rparr>,
             positionEnd = \<lparr> codeUnit = 7, lineCodeUnit = 3, lineNumber = 1 \<rparr>,
             flatIndex = 1 \<rparr>,
          \<lparr> kind = TextLiteralStart, data = [CHR 0x22],
             positionStart = \<lparr> codeUnit = 8, lineCodeUnit = 4, lineNumber = 1 \<rparr>,
             positionEnd = \<lparr> codeUnit = 9, lineCodeUnit = 5, lineNumber = 1 \<rparr>,
             flatIndex = 2 \<rparr>,
          \<lparr> kind = TextLiteralContent, data = ''x'',
             positionStart = \<lparr> codeUnit = 9, lineCodeUnit = 5, lineNumber = 1 \<rparr>,
             positionEnd = \<lparr> codeUnit = 10, lineCodeUnit = 6, lineNumber = 1 \<rparr>,
             flatIndex = 3 \<rparr>] \<rparr>"
  by (simp add: unterminatedState_def flattenLineTokens_def flattenLoop.simps)

lemma flat_strayStartState:
  "flattenLineTokens strayStartState =
     \<lparr> flText = ''/*'' @ [CHR 0x22] @ ''x'',
       flLineTerminators = [\<lparr> ltCodeUnit = 4, ltText = [] \<rparr>],
       flatLineTokens =
         [\<lparr> kind = MultilineCommentStart, data = ''/*'',
             positionStart = \<lparr> codeUnit = 0, lineCodeUnit = 0, lineNumber = 0 \<rparr>,
             positionEnd = \<lparr> codeUnit = 2, lineCodeUnit = 2, lineNumber = 0 \<rparr>,
             flatIndex = 0 \<rparr>,
          \<lparr> kind = TextLiteralStart, data = [CHR 0x22],
             positionStart = \<lparr> codeUnit = 2, lineCodeUnit = 2, lineNumber = 0 \<rparr>,
             positionEnd = \<lparr> codeUnit = 3, lineCodeUnit = 3, lineNumber = 0 \<rparr>,
             flatIndex = 1 \<rparr>,
          \<lparr> kind = TextLiteralContent, data = ''x'',
             positionStart = \<lparr> codeUnit = 3, lineCodeUnit = 3, lineNumber = 0 \<rparr>,
             positionEnd = \<lparr> codeUnit = 4, lineCodeUnit = 4, lineNumber = 0 \<rparr>,
             flatIndex = 2 \<rparr>] \<rparr>"
  by (simp add: strayStartState_def flattenLineTokens_def flattenLoop.simps)

section \<open>The parser context: auxiliary lemmas\<close>

lemma indexOf_None: "indexOf xs v = None \<longleftrightarrow> v \<notin> set xs"
  by (induction xs) auto

lemma indexOf_Some_remove1:
  "indexOf xs v = Some i \<Longrightarrow> take i xs @ drop (Suc i) xs = remove1 v xs"
proof (induction xs arbitrary: i)
  case Nil
  then show ?case by simp
next
  case (Cons x xs)
  show ?case
  proof (cases "x = v")
    case True
    then show ?thesis using Cons.prems by simp
  next
    case False
    then obtain j where j: "indexOf xs v = Some j" "i = Suc j"
      using Cons.prems by auto
    then show ?thesis using Cons.IH [OF j(1)] False by simp
  qed
qed

lemma indexOf_None_remove1: "indexOf xs v = None \<Longrightarrow> remove1 v xs = xs"
  by (simp add: indexOf_None remove1_idem)

lemma map_of_delete: "map_of (AList.delete k xs) k = None"
  by (simp add: AList.delete_eq map_of_eq_None_iff image_iff)

lemma ulp_small: "m < 2 ^ 53 \<Longrightarrow> ulp m = 1"
  by (subst ulp.simps) simp

lemma ulp_next: "2 ^ 53 \<le> m \<Longrightarrow> m < 2 ^ 54 \<Longrightarrow> ulp m = 2"
proof -
  assume a: "2 ^ 53 \<le> m" "m < 2 ^ 54"
  then have "m div 2 < 2 ^ 53" by simp
  then have "ulp (m div 2) = 1" by (rule ulp_small)
  then show ?thesis using a by (subst ulp.simps) simp
qed

lemma roundMagnitude_exact: "m \<le> 2 ^ 53 \<Longrightarrow> roundMagnitude m = m"
proof (cases "m < 2 ^ 53")
  case True
  then show ?thesis by (simp add: roundMagnitude_def ulp_small)
next
  case False
  assume "m \<le> 2 ^ 53"
  then have m: "m = 2 ^ 53" using False by simp
  have "ulp m = 2" unfolding m by (rule ulp_next) simp_all
  then show ?thesis using m by (simp add: roundMagnitude_def)
qed

lemma toDouble_exact: "- (2 ^ 53) \<le> x \<Longrightarrow> x \<le> 2 ^ 53 \<Longrightarrow> toDouble x = x"
proof (cases "x < 0")
  case True
  assume "- (2 ^ 53) \<le> x"
  then have "nat (- x) \<le> 2 ^ 53" by (simp add: nat_le_iff)
  then show ?thesis using True by (simp add: toDouble_def roundMagnitude_exact)
next
  case False
  assume "x \<le> 2 ^ 53"
  then have "nat x \<le> 2 ^ 53" by (simp add: nat_le_iff)
  then show ?thesis using False by (simp add: toDouble_def roundMagnitude_exact)
qed

lemma jsAddOne_exact: "- (2 ^ 53) \<le> n \<Longrightarrow> n < 2 ^ 53 \<Longrightarrow> jsAddOne n = n + 1"
  unfolding jsAddOne_def by (rule toDouble_exact) simp_all

lemma jsAddOne_at_limit: "jsAddOne (2 ^ 53) = 2 ^ 53"
proof -
  have "ulp (2 ^ 53 + 1) = 2" by (rule ulp_next) simp_all
  then have "roundMagnitude (2 ^ 53 + 1) = 2 ^ 53" by (simp add: roundMagnitude_def)
  moreover have "nat (2 ^ 53 + 1) = 2 ^ 53 + 1" by simp
  ultimately show ?thesis by (simp add: jsAddOne_def toDouble_def)
qed

lemma jsAddOne_at_limit_numeral: "jsAddOne 9007199254740992 = 9007199254740992"
  using jsAddOne_at_limit by simp

lemma addChild_counter:
  "nodeIdCounter (fst (snd (addChild h st p k t))) = jsAddOne (nodeIdCounter st)"
  by (simp add: addChild_def Let_def)

lemma addChild_id:
  "nodeId (nodeObjs (fst (addChild h st p k t)) ! snd (snd (addChild h st p k t)))
     = jsAddOne (nodeIdCounter st)"
  by (cases p) (simp_all add: addChild_def Let_def allocNode_def allocArray_def arrayPush_def)

lemma endContext_counter:
  "nodeIdCounter (fst (snd (endContext h st n a))) = nodeIdCounter st"
  by (simp add: endContext_def Let_def)

lemma deleteContext_counter:
  "nodeIdCounter (fst (snd (deleteContext h st n))) = nodeIdCounter st"
  by (simp add: deleteContext_def Let_def split: option.splits sum.splits)

lemma deepCopy_counter: "nodeIdCounter (snd (deepCopy h st)) = nodeIdCounter st"
  by (simp add: deepCopy_def Let_def)

lemma step_length: "length (states w) \<le> length (states (fst (step w op)))"
  by (cases op) (simp_all add: Let_def)

lemma step_counter:
  "s < length (states w) \<Longrightarrow>
   nodeIdCounter (states (fst (step w op)) ! s) =
     (if isAddChildOn s op then jsAddOne (nodeIdCounter (states w ! s))
      else nodeIdCounter (states w ! s))"
  by (cases op)
     (auto simp: Let_def nth_list_update nth_append addChild_counter endContext_counter
        deleteContext_counter)

lemma step_id:
  "s < length (states w) \<Longrightarrow>
   snd (step w (AddChild s p k t)) = Some (jsAddOne (nodeIdCounter (states w ! s)))"
  by (simp add: Let_def addChild_id)

lemma countersSafe_exact:
  "countersSafe w (Suc n) \<Longrightarrow> s < length (states w) \<Longrightarrow>
   jsAddOne (nodeIdCounter (states w ! s)) = nodeIdCounter (states w ! s) + 1"
  by (intro jsAddOne_exact) (auto simp: countersSafe_def)

lemma step_counter_safe:
  "s < length (states w) \<Longrightarrow> countersSafe w (Suc n) \<Longrightarrow>
   nodeIdCounter (states (fst (step w op)) ! s) =
     nodeIdCounter (states w ! s) + (if isAddChildOn s op then 1 else 0)"
  by (simp add: step_counter countersSafe_exact)

lemma step_id_safe:
  "s < length (states w) \<Longrightarrow> countersSafe w (Suc n) \<Longrightarrow>
   snd (step w (AddChild s p k t)) = Some (nodeIdCounter (states w ! s) + 1)"
  by (simp only: step_id countersSafe_exact)

lemma step_countersSafe:
  assumes safe: "countersSafe w (Suc n)"
  shows "countersSafe (fst (step w op)) n"
  unfolding countersSafe_def
proof (intro allI impI)
  fix s assume s: "s < length (states (fst (step w op)))"
  show "- (2 ^ 53) \<le> nodeIdCounter (states (fst (step w op)) ! s)
        \<and> nodeIdCounter (states (fst (step w op)) ! s) + int n \<le> 2 ^ 53"
  proof (cases "s < length (states w)")
    case True
    have "- (2 ^ 53) \<le> nodeIdCounter (states w ! s)
          \<and> nodeIdCounter (states w ! s) + int (Suc n) \<le> 2 ^ 53"
      using safe True by (simp add: countersSafe_def)
    then show ?thesis
      using step_counter_safe [OF True safe, of op] by auto
  next
    case False
    then obtain s0 where op: "op = DeepCopy s0" and s0: "s0 < length (states w)"
      using s by (cases op) (auto simp: Let_def split: if_splits)
    have sl: "s = length (states w)"
      using s False op s0 by (simp add: Let_def)
    have "nodeIdCounter (states (fst (step w op)) ! s) = nodeIdCounter (states w ! s0)"
      using op s0 sl by (simp add: Let_def deepCopy_counter)
    moreover have "- (2 ^ 53) \<le> nodeIdCounter (states w ! s0)
          \<and> nodeIdCounter (states w ! s0) + int (Suc n) \<le> 2 ^ 53"
      using safe s0 by (simp add: countersSafe_def)
    ultimately show ?thesis by auto
  qed
qed

lemma sorted_snoc:
  "sorted_wrt (<) xs \<Longrightarrow> \<forall>i\<in>set xs. i \<le> c \<Longrightarrow> sorted_wrt (<) (xs @ [c + (1::int)])"
  by (fastforce simp: sorted_wrt_append)

lemma step_idsIncrease:
  assumes "idsIncrease w hist" and safe: "countersSafe w (Suc n)"
  shows "idsIncrease (fst (step w op)) (recordIds op (snd (step w op)) hist)"
proof (cases op)
  case (AddChild s p k t)
  show ?thesis
  proof (cases "s < length (states w)")
    case True
    have id: "snd (step w op) = Some (nodeIdCounter (states w ! s) + 1)"
      unfolding AddChild by (rule step_id_safe [OF True safe])
    have len: "length (states (fst (step w op))) = length (states w)"
      using AddChild True by (simp add: Let_def)
    have "\<forall>s'<length (states w).
            sorted_wrt (<) ((hist[s := hist ! s @ [nodeIdCounter (states w ! s) + 1]]) ! s')
            \<and> (\<forall>i\<in>set ((hist[s := hist ! s @ [nodeIdCounter (states w ! s) + 1]]) ! s').
                  i \<le> nodeIdCounter (states (fst (step w op)) ! s'))"
    proof (intro allI impI)
      fix s' assume s': "s' < length (states w)"
      have c: "nodeIdCounter (states (fst (step w op)) ! s') =
                 nodeIdCounter (states w ! s') + (if isAddChildOn s' op then 1 else 0)"
        using s' safe by (rule step_counter_safe)
      have len0: "length hist = length (states w)"
        using assms by (simp add: idsIncrease_def)
      have srt: "sorted_wrt (<) (hist ! s')"
        and bnd: "\<forall>i\<in>set (hist ! s'). i \<le> nodeIdCounter (states w ! s')"
        using assms s' by (simp_all add: idsIncrease_def)
      show "sorted_wrt (<) ((hist[s := hist ! s @ [nodeIdCounter (states w ! s) + 1]]) ! s')
            \<and> (\<forall>i\<in>set ((hist[s := hist ! s @ [nodeIdCounter (states w ! s) + 1]]) ! s').
                  i \<le> nodeIdCounter (states (fst (step w op)) ! s'))"
      proof (cases "s' = s")
        case True
        have upd: "(hist[s := hist ! s @ [nodeIdCounter (states w ! s) + 1]]) ! s'
                     = hist ! s @ [nodeIdCounter (states w ! s) + 1]"
          using True s' len0 by simp
        have c': "nodeIdCounter (states (fst (step w op)) ! s') = nodeIdCounter (states w ! s) + 1"
          using c True AddChild by simp
        have "sorted_wrt (<) (hist ! s @ [nodeIdCounter (states w ! s) + 1])"
          using srt bnd True by (intro sorted_snoc) auto
        moreover have "\<forall>i\<in>set (hist ! s @ [nodeIdCounter (states w ! s) + 1]).
                         i \<le> nodeIdCounter (states w ! s) + 1"
          using bnd True by fastforce
        ultimately show ?thesis unfolding upd c' by simp
      next
        case False
        have upd: "(hist[s := hist ! s @ [nodeIdCounter (states w ! s) + 1]]) ! s' = hist ! s'"
          using False by simp
        have c': "nodeIdCounter (states (fst (step w op)) ! s') = nodeIdCounter (states w ! s')"
          using c False AddChild by simp
        show ?thesis unfolding upd c' using srt bnd by simp
      qed
    qed
    moreover have "recordIds op (snd (step w op)) hist
                     = hist[s := hist ! s @ [nodeIdCounter (states w ! s) + 1]]"
      unfolding id unfolding AddChild by simp
    moreover have "length hist = length (states w)"
      using assms by (simp add: idsIncrease_def)
    ultimately show ?thesis
      unfolding idsIncrease_def len by simp
  next
    case False
    then show ?thesis using assms AddChild by simp
  qed
next
  case (EndContext s oldNode a)
  show ?thesis
  proof (cases "s < length (states w)")
    case True
    have "\<And>s'. s' < length (states w) \<Longrightarrow>
            nodeIdCounter (states (fst (step w op)) ! s') = nodeIdCounter (states w ! s')"
      using step_counter [of _ w op] EndContext by simp
    then show ?thesis
      using assms EndContext True by (simp add: idsIncrease_def Let_def)
  next
    case False
    then show ?thesis using assms EndContext by simp
  qed
next
  case (DeleteContext s node)
  show ?thesis
  proof (cases "s < length (states w)")
    case True
    have "\<And>s'. s' < length (states w) \<Longrightarrow>
            nodeIdCounter (states (fst (step w op)) ! s') = nodeIdCounter (states w ! s')"
      using step_counter [of _ w op] DeleteContext by simp
    then show ?thesis
      using assms DeleteContext True by (simp add: idsIncrease_def Let_def)
  next
    case False
    then show ?thesis using assms DeleteContext by simp
  qed
next
  case (DeepCopy s)
  show ?thesis
  proof (cases "s < length (states w)")
    case True
    then have sh: "s < length hist" using assms by (simp add: idsIncrease_def)
    show ?thesis
      using assms DeepCopy True sh
      by (auto simp: idsIncrease_def Let_def nth_append deepCopy_counter less_Suc_eq)
  next
    case False
    then have "\<not> s < length hist" using assms by (simp add: idsIncrease_def)
    then show ?thesis using assms DeepCopy False by simp
  qed
qed

lemma run_idsIncrease:
  "idsIncrease w hist \<Longrightarrow> countersSafe w (length ops) \<Longrightarrow>
   idsIncrease (fst (run w hist ops)) (snd (run w hist ops))"
proof (induction ops arbitrary: w hist)
  case Nil
  then show ?case by simp
next
  case (Cons op ops)
  have safe: "countersSafe w (Suc (length ops))" using Cons.prems(2) by simp
  show ?case
    using Cons.IH [OF step_idsIncrease [OF Cons.prems(1) safe] step_countersSafe [OF safe]]
    by simp
qed

lemma run_counter:
  "s < length (states w) \<Longrightarrow> countersSafe w (length ops) \<Longrightarrow>
   nodeIdCounter (states w ! s) \<le> nodeIdCounter (states (fst (run w hist ops)) ! s)"
proof (induction ops arbitrary: w hist)
  case Nil
  then show ?case by simp
next
  case (Cons op ops)
  have safe: "countersSafe w (Suc (length ops))" using Cons.prems(2) by simp
  have s1: "s < length (states (fst (step w op)))"
    using Cons.prems(1) step_length [of w op] by simp
  have "nodeIdCounter (states w ! s) \<le> nodeIdCounter (states (fst (step w op)) ! s)"
    using step_counter_safe [OF Cons.prems(1) safe, of op] by simp
  then show ?case
    using Cons.IH [OF s1 step_countersSafe [OF safe], of "recordIds op (snd (step w op)) hist"]
    by simp
qed

text \<open>The equations that evaluate the context on a concrete store.\<close>

lemmas eval_context =
  addChild_def endContext_def deleteContext_def deepCopy_def deepCopyNode_def
  allocNode_def allocArray_def allocAst_def arrayPush_def expectNode_def maybeGetNode_def
  empty_state_def emptyStore_def AList.delete_eq Let_def jsAddOne_exact

lemma run_backtrackOps:
  "snd (run startWorld [[]] backtrackOps) = [[1, 2, 3], [1, 2, 3]]
   \<and> map nodeIdCounter (states (fst (run startWorld [[]] backtrackOps))) = [3, 3]"
  by (simp add: startWorld_def backtrackOps_def eval_context)

section \<open>The claims about the lexer snapshot\<close>

text \<open>
  C3, as amended. For every lexer state whose flat token stream contains a multiline-start
  token followed only by tokens of the matching content kind up to the end of the stream,
  and in which every multiline-start token before it is closed before it (its run of
  matching content tokens is ended by a token of its matching end kind),
  \<^verbatim>\<open>LexerSnapshot.tryFrom\<close> returns an error result and no snapshot. The grapheme position
  of the start token is computed before the error is made: when
  \<^verbatim>\<open>StringUtils.graphemePositionFrom\<close> returns a position, the result carries the
  unterminated-multiline error of the matching kind at that position; when it throws, the
  result carries what it threw, wrapped as a common error.
\<close>

theorem unterminated_multiline_token:
  assumes "flat = flatLineTokens (flattenLineTokens st)"
    and "k < length flat"
    and "multilineParts (kind (flat ! k)) = Some (ck, ek, uk)"
    and "\<forall>m. k < m \<and> m < length flat \<longrightarrow> kind (flat ! m) = ck"
    and "\<forall>i<k. \<forall>ck' ek' uk'. multilineParts (kind (flat ! i)) = Some (ck', ek', uk') \<longrightarrow>
           (\<exists>e. i < e \<and> e < k \<and> (\<forall>m. i < m \<and> m < e \<longrightarrow> kind (flat ! m) = ck')
                \<and> kind (flat ! e) = ek')"
  shows "tryFrom gpf st =
           Some (Inl (case graphemePositionStartFrom gpf (flText (flattenLineTokens st))
                             (flLineTerminators (flattenLineTokens st)) (flat ! k) of
                        Some graphemePosition \<Rightarrow>
                          LexError (UnterminatedMultilineTokenError graphemePosition uk)
                      | None \<Rightarrow> CommonError GraphemePositionError))"
proof -
  have "factoryLoop gpf (flattenLineTokens st) 0 [] [] =
           Some (Inl (unterminatedError gpf (flattenLineTokens st)
                        (flatLineTokens (flattenLineTokens st) ! k) uk))"
    using assms by (intro factoryLoop_reaches_unterminated [OF consistent_flatten]) auto
  then show ?thesis
    using assms(1)
    by (simp add: tryFrom_def factory_def Let_def unterminatedError_def split: option.splits)
qed

theorem unterminated_multiline_token_witness:
  "map kind (flatLineTokens (flattenLineTokens unterminatedState)) =
     [MultilineCommentStart, MultilineCommentEnd, TextLiteralStart, TextLiteralContent]
   \<and> tryFrom gpArgs unterminatedState =
       Some (Inl (LexError (UnterminatedMultilineTokenError
         (''b*/ '' @ [CHR 0x22] @ ''x'', 4, 1, 9) UnterminatedText)))
   \<and> tryFrom gpThrows unterminatedState = Some (Inl (CommonError GraphemePositionError))"
proof -
  let ?flat = "flatLineTokens (flattenLineTokens unterminatedState)"
  have a: "?flat = flatLineTokens (flattenLineTokens unterminatedState)" by simp
  have b: "2 < length ?flat" by (simp add: flat_unterminatedState)
  have c: "multilineParts (kind (?flat ! 2)) =
             Some (TextLiteralContent, TextLiteralEnd, UnterminatedText)"
    by (simp add: flat_unterminatedState)
  have d: "\<forall>m. 2 < m \<and> m < length ?flat \<longrightarrow> kind (?flat ! m) = TextLiteralContent"
  proof (intro allI impI)
    fix m :: nat
    assume "2 < m \<and> m < length ?flat"
    then have "m = 3" by (simp add: flat_unterminatedState)
    then show "kind (?flat ! m) = TextLiteralContent" by (simp add: flat_unterminatedState)
  qed
  have e: "\<forall>i<2. \<forall>ck' ek' uk'. multilineParts (kind (?flat ! i)) = Some (ck', ek', uk') \<longrightarrow>
           (\<exists>e. i < e \<and> e < 2 \<and> (\<forall>m. i < m \<and> m < e \<longrightarrow> kind (?flat ! m) = ck')
                \<and> kind (?flat ! e) = ek')"
  proof (intro allI impI)
    fix i :: nat and ck' ek' uk'
    assume i: "i < 2" and p: "multilineParts (kind (?flat ! i)) = Some (ck', ek', uk')"
    have "i = 0 \<or> i = 1" using i by auto
    then have i0: "i = 0" using p by (auto simp: flat_unterminatedState)
    then have "ek' = MultilineCommentEnd" using p by (simp add: flat_unterminatedState)
    then have "i < 1 \<and> (1::nat) < 2 \<and> (\<forall>m. i < m \<and> m < 1 \<longrightarrow> kind (?flat ! m) = ck')
                \<and> kind (?flat ! 1) = ek'"
      using i0 by (simp add: flat_unterminatedState)
    then show "\<exists>e. i < e \<and> e < 2 \<and> (\<forall>m. i < m \<and> m < e \<longrightarrow> kind (?flat ! m) = ck')
                \<and> kind (?flat ! e) = ek'"
      by blast
  qed
  have g: "graphemePositionStartFrom gpArgs (flText (flattenLineTokens unterminatedState))
             (flLineTerminators (flattenLineTokens unterminatedState)) (?flat ! 2)
           = Some (''b*/ '' @ [CHR 0x22] @ ''x'', 4, 1, 9)"
    by (simp add: flat_unterminatedState graphemePositionStartFrom_def substring_def gpArgs_def)
  have g': "graphemePositionStartFrom gpThrows (flText (flattenLineTokens unterminatedState))
             (flLineTerminators (flattenLineTokens unterminatedState)) (?flat ! 2)
           = None"
    by (simp add: graphemePositionStartFrom_def gpThrows_def Let_def)
  have h: "map kind ?flat =
     [MultilineCommentStart, MultilineCommentEnd, TextLiteralStart, TextLiteralContent]"
    by (simp add: flat_unterminatedState)
  show ?thesis
    using unterminated_multiline_token [OF a b c d e, of gpArgs]
      unterminated_multiline_token [OF a b c d e, of gpThrows] g g' h
    by simp
qed

theorem unterminated_multiline_token_counterexample:
  "map kind (flatLineTokens (flattenLineTokens strayStartState)) =
     [MultilineCommentStart, TextLiteralStart, TextLiteralContent]
   \<and> tryFrom gpArgs strayStartState =
       Some (Inl (CommonError (InvariantError
         \<lparr> kind = TextLiteralStart, data = [CHR 0x22],
           positionStart = \<lparr> codeUnit = 2, lineCodeUnit = 2, lineNumber = 0 \<rparr>,
           positionEnd = \<lparr> codeUnit = 3, lineCodeUnit = 3, lineNumber = 0 \<rparr>,
           flatIndex = 1 \<rparr>)))
   \<and> graphemePositionStartFrom gpArgs (flText (flattenLineTokens strayStartState))
         (flLineTerminators (flattenLineTokens strayStartState))
         (flatLineTokens (flattenLineTokens strayStartState) ! 1)
       = Some (''/*'' @ [CHR 0x22] @ ''x'', 2, 0, 3)
   \<and> tryFrom gpArgs strayStartState \<noteq>
       Some (Inl (LexError (UnterminatedMultilineTokenError
         (''/*'' @ [CHR 0x22] @ ''x'', 2, 0, 3) UnterminatedText)))"
  by (simp add: flat_strayStartState tryFrom_def factory_def factoryLoop.simps factoryStep_def
        readMultilineComment_def collectWhileContent_def collectLoop.simps at_def Let_def
        graphemePositionStartFrom_def substring_def gpArgs_def)

text \<open>
  C4. For every multiline-start token whose content run is terminated by a token of the
  matching end kind, the loop body produces one merged comment or token: it starts where
  the start token starts, ends where the end token ends, its data is the substring of the
  global text between those two code-unit offsets, and a comment contains a newline exactly
  when the two line numbers differ. The loop continues at the flat token immediately after
  the end token.
\<close>

theorem multiline_merge:
  assumes "flat = flatLineTokens (flattenLineTokens st)"
    and "i < e" and "e < length flat"
    and "multilineParts (kind (flat ! i)) = Some (ck, ek, uk)"
    and "\<forall>m. i < m \<and> m < e \<longrightarrow> kind (flat ! m) = ck"
    and "kind (flat ! e) = ek"
  shows "factoryStep gpf (flattenLineTokens st) i toks comms =
           Inr (e + 1,
                (if kind (flat ! i) = MultilineCommentStart then toks
                 else toks @ [mergedToken
                                (if kind (flat ! i) = QuotedIdentifierStart
                                 then Identifier else TextLiteral)
                                (flText (flattenLineTokens st)) (flat ! i) (flat ! e)]),
                (if kind (flat ! i) = MultilineCommentStart
                 then comms @ [mergedComment (flText (flattenLineTokens st)) (flat ! i) (flat ! e)]
                 else comms))
         \<and> factoryLoop gpf (flattenLineTokens st) i toks comms =
             factoryLoop gpf (flattenLineTokens st) (e + 1)
               (if kind (flat ! i) = MultilineCommentStart then toks
                else toks @ [mergedToken
                               (if kind (flat ! i) = QuotedIdentifierStart
                                then Identifier else TextLiteral)
                               (flText (flattenLineTokens st)) (flat ! i) (flat ! e)])
               (if kind (flat ! i) = MultilineCommentStart
                then comms @ [mergedComment (flText (flattenLineTokens st)) (flat ! i) (flat ! e)]
                else comms)"
proof -
  let ?fl = "flattenLineTokens st"
  have il: "i < length (flatLineTokens ?fl)" using assms(1,2,3) by simp
  have st: "factoryStep gpf ?fl i toks comms =
           Inr (e + 1,
                (if kind (flat ! i) = MultilineCommentStart then toks
                 else toks @ [mergedToken
                                (if kind (flat ! i) = QuotedIdentifierStart
                                 then Identifier else TextLiteral)
                                (flText ?fl) (flat ! i) (flat ! e)]),
                (if kind (flat ! i) = MultilineCommentStart
                 then comms @ [mergedComment (flText ?fl) (flat ! i) (flat ! e)]
                 else comms))"
    using factoryStep_merged [OF consistent_flatten, of i e st ck ek uk gpf toks comms] assms
    by (simp add: mergedToken_def mergedComment_def)
  show ?thesis
    using st factoryLoop_next [OF il st] by simp
qed


theorem multiline_merge_witness:
  "(0::nat) < 2
   \<and> 2 < length (flatLineTokens (flattenLineTokens commentState))
   \<and> map kind (flatLineTokens (flattenLineTokens commentState)) =
       [MultilineCommentStart, MultilineCommentContent, MultilineCommentEnd]
   \<and> factoryStep gpArgs (flattenLineTokens commentState) 0 [] [] =
       Inr (3, [],
            [\<lparr> kind = Multiline,
                data = ''/*a'' @ [CHR 0x0A] @ ''b'' @ [CHR 0x0A] @ ''c*/'',
                positionStart = \<lparr> codeUnit = 0, lineCodeUnit = 0, lineNumber = 0 \<rparr>,
                positionEnd = \<lparr> codeUnit = 9, lineCodeUnit = 3, lineNumber = 2 \<rparr>,
                containsNewline = True \<rparr>])"
proof -
  let ?flat = "flatLineTokens (flattenLineTokens commentState)"
  have a: "?flat = flatLineTokens (flattenLineTokens commentState)" by simp
  have b: "(0::nat) < 2" by simp
  have c: "2 < length ?flat" by (simp add: flat_commentState)
  have d: "multilineParts (kind (?flat ! 0)) =
             Some (MultilineCommentContent, MultilineCommentEnd, UnterminatedMultilineComment)"
    by (simp add: flat_commentState)
  have e: "\<forall>m. 0 < m \<and> m < 2 \<longrightarrow> kind (?flat ! m) = MultilineCommentContent"
  proof (intro allI impI)
    fix m :: nat
    assume "0 < m \<and> m < 2"
    then have "m = 1" by simp
    then show "kind (?flat ! m) = MultilineCommentContent" by (simp add: flat_commentState)
  qed
  have f: "kind (?flat ! 2) = MultilineCommentEnd" by (simp add: flat_commentState)
  have g: "map kind ?flat = [MultilineCommentStart, MultilineCommentContent, MultilineCommentEnd]"
    by (simp add: flat_commentState)
  have h: "mergedComment (flText (flattenLineTokens commentState)) (?flat ! 0) (?flat ! 2) =
             \<lparr> kind = Multiline,
               data = ''/*a'' @ [CHR 0x0A] @ ''b'' @ [CHR 0x0A] @ ''c*/'',
               positionStart = \<lparr> codeUnit = 0, lineCodeUnit = 0, lineNumber = 0 \<rparr>,
               positionEnd = \<lparr> codeUnit = 9, lineCodeUnit = 3, lineNumber = 2 \<rparr>,
               containsNewline = True \<rparr>"
    by (simp add: flat_commentState mergedComment_def substring_def)
  have k0: "kind (?flat ! 0) = MultilineCommentStart" by (simp add: flat_commentState)
  show ?thesis
    using multiline_merge [OF a b c d e f, of gpArgs "[]" "[]"] c g h k0 by simp
qed

lemma tryFrom_twoLineState:
  "tryFrom gpArgs twoLineState =
     Some (Inr \<lparr> snapText = ''a'' @ [CHR 0x0A] @ ''b'', snapTokens = [], snapComments = [],
                 snapLineTerminators =
                   [\<lparr> ltCodeUnit = 1, ltText = [CHR 0x0A] \<rparr>, \<lparr> ltCodeUnit = 3, ltText = [] \<rparr>] \<rparr>)"
  by (simp add: twoLineState_def eval_flatten)

text \<open>
  C5, as amended. \<^verbatim>\<open>LexerSnapshot.tryFrom\<close> returns for every lexer state, and the text of a
  snapshot it produces is the concatenation, in order, of every line's text followed by
  that line's terminator, except that the terminator of the last line is left out.
\<close>

theorem snapshot_text:
  "(\<exists>r. tryFrom gpf st = Some r)
   \<and> (\<forall>snap. tryFrom gpf st = Some (Inr snap) \<longrightarrow>
         snapText snap = lastTerminatorOmitted (lines st))"
proof -
  have "flText (flattenLineTokens st) = lastTerminatorOmitted (lines st)"
    by (simp add: flatten_text joinLines_closed lastTerminatorOmitted_def everyLineWithTerminator_def)
  then show ?thesis
    using tryFrom_returns [of gpf st] tryFrom_snapshot [of gpf st] by auto
qed

theorem snapshot_text_witness:
  "tryFrom gpArgs twoLineState =
     Some (Inr \<lparr> snapText = ''a'' @ [CHR 0x0A] @ ''b'', snapTokens = [], snapComments = [],
                 snapLineTerminators =
                   [\<lparr> ltCodeUnit = 1, ltText = [CHR 0x0A] \<rparr>, \<lparr> ltCodeUnit = 3, ltText = [] \<rparr>] \<rparr>)
   \<and> lastTerminatorOmitted (lines twoLineState) = ''a'' @ [CHR 0x0A] @ ''b''"
  using snapshot_text [of gpArgs twoLineState] tryFrom_twoLineState by auto

theorem snapshot_text_counterexample:
  "tryFrom gpArgs terminatedLineState =
     Some (Inr \<lparr> snapText = ''a'', snapTokens = [], snapComments = [],
                 snapLineTerminators = [\<lparr> ltCodeUnit = 1, ltText = [CHR 0x0A] \<rparr>] \<rparr>)
   \<and> everyLineWithTerminator (lines terminatedLineState) = ''a'' @ [CHR 0x0A]
   \<and> snapText \<lparr> snapText = ''a'', snapTokens = [], snapComments = [],
                   snapLineTerminators = [\<lparr> ltCodeUnit = 1, ltText = [CHR 0x0A] \<rparr>] \<rparr>
       \<noteq> everyLineWithTerminator (lines terminatedLineState)"
  by (simp add: terminatedLineState_def eval_flatten everyLineWithTerminator_def)

text \<open>
  C6, as amended. For every text, line-terminator table and token,
  \<^verbatim>\<open>graphemePositionStartFrom\<close> computes the position over the window whose exclusive end is
  the end offset of the first terminator at or after the token's end code unit (the text
  length when there is none), and whose start is just past the last terminator strictly
  before the token's start code unit among the terminators the scan reads, which are those
  up to and including that first terminator (0 when there is none). When the table is
  sorted ascending by offset and the token does not end before it starts, that is the last
  terminator strictly before the token's start in the whole table.
\<close>

theorem graphemePositionStartFrom_window:
  "graphemePositionStartFrom gpf tx lts tok =
     gpf (substring tx
            (justPastLastBefore (scanned lts (codeUnit (positionEnd tok)))
               (codeUnit (positionStart tok)) 0)
            (endOfFirstAtOrAfter lts (codeUnit (positionEnd tok)) (length tx)))
         (lineCodeUnit (positionStart tok)) (lineNumber (positionStart tok))
         (codeUnit (positionEnd tok))
   \<and> (sorted_wrt (\<lambda>a b. ltCodeUnit a \<le> ltCodeUnit b) lts
        \<and> codeUnit (positionStart tok) \<le> codeUnit (positionEnd tok) \<longrightarrow>
      justPastLastBefore (scanned lts (codeUnit (positionEnd tok))) (codeUnit (positionStart tok)) 0
        = justPastLastBefore lts (codeUnit (positionStart tok)) 0)"
  by (simp add: graphemePositionStartFrom_def Let_def windowLoop_eq justPastLastBefore_def
        scanned_filter)

theorem graphemePositionStartFrom_window_witness:
  "sorted_wrt (\<lambda>a b. ltCodeUnit a \<le> ltCodeUnit b) orderedTable
   \<and> codeUnit (positionStart secondLineToken) \<le> codeUnit (positionEnd secondLineToken)
   \<and> justPastLastBefore orderedTable (codeUnit (positionStart secondLineToken)) 0 = 3
   \<and> endOfFirstAtOrAfter orderedTable (codeUnit (positionEnd secondLineToken)) (length threeLineText) = 6
   \<and> graphemePositionStartFrom gpArgs threeLineText orderedTable secondLineToken
       = Some (''cd'' @ [CHR 0x0A], 0, 1, 5)"
proof -
  have a: "sorted_wrt (\<lambda>a b. ltCodeUnit a \<le> ltCodeUnit b) orderedTable
           \<and> codeUnit (positionStart secondLineToken) \<le> codeUnit (positionEnd secondLineToken)"
    by (simp add: orderedTable_def secondLineToken_def)
  have b: "justPastLastBefore orderedTable (codeUnit (positionStart secondLineToken)) 0 = 3"
    by (simp add: orderedTable_def secondLineToken_def justPastLastBefore_def)
  have c: "endOfFirstAtOrAfter orderedTable (codeUnit (positionEnd secondLineToken))
             (length threeLineText) = 6"
    by (simp add: orderedTable_def secondLineToken_def endOfFirstAtOrAfter_def)
  have d: "substring threeLineText 3 6 = ''cd'' @ [CHR 0x0A]"
    by (simp add: threeLineText_def substring_def)
  have e: "lineCodeUnit (positionStart secondLineToken) = 0
           \<and> lineNumber (positionStart secondLineToken) = 1
           \<and> codeUnit (positionEnd secondLineToken) = 5"
    by (simp add: secondLineToken_def)
  show ?thesis
    using graphemePositionStartFrom_window [of gpArgs threeLineText orderedTable secondLineToken]
      a b c d e
    by (simp add: gpArgs_def)
qed

theorem graphemePositionStartFrom_window_counterexample:
  "graphemePositionStartFrom gpArgs threeLineText reversedTable secondLineToken
     = Some (''ab'' @ [CHR 0x0A] @ ''cd'' @ [CHR 0x0A], 0, 1, 5)
   \<and> gpArgs (substring threeLineText
                (justPastLastBefore reversedTable (codeUnit (positionStart secondLineToken)) 0)
                (endOfFirstAtOrAfter reversedTable (codeUnit (positionEnd secondLineToken))
                   (length threeLineText)))
         (lineCodeUnit (positionStart secondLineToken))
         (lineNumber (positionStart secondLineToken))
         (codeUnit (positionEnd secondLineToken))
     = Some (''cd'' @ [CHR 0x0A], 0, 1, 5)
   \<and> graphemePositionStartFrom gpArgs threeLineText reversedTable secondLineToken
     \<noteq> gpArgs (substring threeLineText
                (justPastLastBefore reversedTable (codeUnit (positionStart secondLineToken)) 0)
                (endOfFirstAtOrAfter reversedTable (codeUnit (positionEnd secondLineToken))
                   (length threeLineText)))
         (lineCodeUnit (positionStart secondLineToken))
         (lineNumber (positionStart secondLineToken))
         (codeUnit (positionEnd secondLineToken))"
  by (simp add: graphemePositionStartFrom_def reversedTable_def secondLineToken_def
        threeLineText_def substring_def gpArgs_def justPastLastBefore_def endOfFirstAtOrAfter_def
        Let_def)

text \<open>
  C8, as amended. In the line-terminator table produced by flattening, the offset of each
  entry is at least the offset of the entry before it; the table is strictly ordered
  exactly when, for every two adjacent lines, the terminator of the first or the text of
  the second is not empty.
\<close>

theorem lineTerminators_ordered:
  "weaklyOrdered (flLineTerminators (flattenLineTokens st))
   \<and> (strictlyOrdered (flLineTerminators (flattenLineTokens st)) \<longleftrightarrow>
        (\<forall>i. Suc i < length (lines st) \<longrightarrow>
           lineTerminator (lines st ! i) \<noteq> [] \<or> lineText (lines st ! Suc i) \<noteq> []))"
proof -
  let ?lts = "terminatorsFrom (lines st) 0"
  have step: "\<And>i. Suc i < length (lines st) \<Longrightarrow>
         ltCodeUnit (?lts ! Suc i) =
           ltCodeUnit (?lts ! i) + length (lineTerminator (lines st ! i))
             + length (lineText (lines st ! Suc i))"
    by (rule terminatorsFrom_step)
  have w: "weaklyOrdered ?lts"
    unfolding weaklyOrdered_def successively_conv_nth
    using step by (simp add: terminatorsFrom_length)
  have s: "strictlyOrdered ?lts \<longleftrightarrow>
        (\<forall>i. Suc i < length (lines st) \<longrightarrow>
           lineTerminator (lines st ! i) \<noteq> [] \<or> lineText (lines st ! Suc i) \<noteq> [])"
    unfolding strictlyOrdered_def successively_conv_nth
    using step by (auto simp: terminatorsFrom_length)
  show ?thesis using w s by (simp add: flatten_terminators)
qed

theorem lineTerminators_ordered_witness:
  "strictlyOrdered (flLineTerminators (flattenLineTokens twoLineState))
   \<and> flLineTerminators (flattenLineTokens twoLineState) =
       [\<lparr> ltCodeUnit = 1, ltText = [CHR 0x0A] \<rparr>, \<lparr> ltCodeUnit = 3, ltText = [] \<rparr>]"
proof -
  have "\<forall>i. Suc i < length (lines twoLineState) \<longrightarrow>
           lineTerminator (lines twoLineState ! i) \<noteq> [] \<or> lineText (lines twoLineState ! Suc i) \<noteq> []"
    by (simp add: twoLineState_def)
  then have "strictlyOrdered (flLineTerminators (flattenLineTokens twoLineState))"
    using lineTerminators_ordered [of twoLineState] by blast
  moreover have "flLineTerminators (flattenLineTokens twoLineState) =
       [\<lparr> ltCodeUnit = 1, ltText = [CHR 0x0A] \<rparr>, \<lparr> ltCodeUnit = 3, ltText = [] \<rparr>]"
    by (simp add: twoLineState_def flattenLineTokens_def flattenLoop.simps)
  ultimately show ?thesis by simp
qed

theorem lineTerminators_ordered_counterexample:
  "flLineTerminators (flattenLineTokens emptySecondLineState) =
     [\<lparr> ltCodeUnit = 1, ltText = [] \<rparr>, \<lparr> ltCodeUnit = 1, ltText = [] \<rparr>]
   \<and> \<not> strictlyOrdered (flLineTerminators (flattenLineTokens emptySecondLineState))"
  by (simp add: emptySecondLineState_def flattenLineTokens_def flattenLoop.simps strictlyOrdered_def)

text \<open>
  C9. The loop body turns a flat token of kind \<^verbatim>\<open>LineComment\<close> into one comment, made by
  \<^verbatim>\<open>readLineComment\<close>, whose \<^verbatim>\<open>containsNewline\<close> is true although its start and end line
  numbers are equal.
\<close>

theorem lineComment_containsNewline:
  assumes "i < length (flatLineTokens (flattenLineTokens st))"
    and "kind (flatLineTokens (flattenLineTokens st) ! i) = LineComment"
  shows "factoryStep gpf (flattenLineTokens st) i toks comms =
           Inr (i + 1, toks, comms @ [readLineComment (flatLineTokens (flattenLineTokens st) ! i)])
         \<and> containsNewline (readLineComment (flatLineTokens (flattenLineTokens st) ! i)) = True
         \<and> lineNumber (positionStart (readLineComment (flatLineTokens (flattenLineTokens st) ! i)))
             = lineNumber (positionEnd (readLineComment (flatLineTokens (flattenLineTokens st) ! i)))"
  using assms flat_lineNumber [OF assms(1)]
  by (simp add: factoryStep_def Let_def readLineComment_def)

theorem lineComment_containsNewline_witness:
  "0 < length (flatLineTokens (flattenLineTokens lineCommentState))
   \<and> kind (flatLineTokens (flattenLineTokens lineCommentState) ! 0) = LineComment
   \<and> factoryStep gpArgs (flattenLineTokens lineCommentState) 0 [] [] =
        Inr (1, [],
             [\<lparr> kind = Line, data = ''//x'',
                 positionStart = \<lparr> codeUnit = 0, lineCodeUnit = 0, lineNumber = 0 \<rparr>,
                 positionEnd = \<lparr> codeUnit = 3, lineCodeUnit = 3, lineNumber = 0 \<rparr>,
                 containsNewline = True \<rparr>])"
proof -
  have a: "0 < length (flatLineTokens (flattenLineTokens lineCommentState))"
    by (simp add: lineCommentState_def flattenLineTokens_def flattenLoop.simps)
  have b: "kind (flatLineTokens (flattenLineTokens lineCommentState) ! 0) = LineComment"
    by (simp add: lineCommentState_def flattenLineTokens_def flattenLoop.simps)
  have c: "readLineComment (flatLineTokens (flattenLineTokens lineCommentState) ! 0) =
             \<lparr> kind = Line, data = ''//x'',
               positionStart = \<lparr> codeUnit = 0, lineCodeUnit = 0, lineNumber = 0 \<rparr>,
               positionEnd = \<lparr> codeUnit = 3, lineCodeUnit = 3, lineNumber = 0 \<rparr>,
               containsNewline = True \<rparr>"
    by (simp add: lineCommentState_def flattenLineTokens_def flattenLoop.simps readLineComment_def)
  show ?thesis
    using lineComment_containsNewline [OF a b, of gpArgs "[]" "[]"] a b c by simp
qed

section \<open>The claims about the parser context\<close>

text \<open>
  C1, which the code does not meet. \<^verbatim>\<open>deepCopyNode\<close> spreads the fields of a node into its
  copy, so a node and its copy refer to one array of child ids. A state with a single
  root node is copied, and a child is added to the root of the copy: the child-id list of
  the original's root, empty after the copy, holds the new id 2 afterwards, although the
  original state was not operated on and its node map holds the id 1 alone.
\<close>

theorem deepCopy_shares_child_arrays:
  "map fst (nodesById (fst (snd rootAdded))) = [1]
   \<and> maybeGetNode (nodesById (snd rootCopied)) 1 = Some 1
   \<and> maybeGetNode (nodesById (fst (snd rootAdded))) 1 = Some 0
   \<and> childIdsOf (fst rootCopied) (fst (snd rootAdded)) 1 = Some []
   \<and> childIdsOf (fst childAddedToCopy) (fst (snd rootAdded)) 1 = Some [2]"
  by (simp add: childIdsOf_def childAddedToCopy_def rootCopied_def rootAdded_def eval_context)

text \<open>
  C2, which the code does not meet. \<^verbatim>\<open>deepCopy\<close> derives the root reference of the copy by
  looking up the id 0 in the copied node map, whatever the id of the root is. The root of
  the state here has the id 1, as \<^verbatim>\<open>addChild\<close> allocates it: the copy holds the copied
  node under the id 1 and no root. The terminal ids and the id counter are copied by
  value.
\<close>

theorem deepCopy_root_lookup:
  "root rootedState = Some 0
   \<and> nodeId (nodeObjs (fst rootAdded) ! 0) = 1
   \<and> root (snd (deepCopy (fst rootAdded) rootedState)) = None
   \<and> maybeGetNode (nodesById (snd (deepCopy (fst rootAdded) rootedState))) 1 = Some 1
   \<and> terminalNodeIds (snd (deepCopy (fst rootAdded) rootedState)) = terminalNodeIds rootedState
   \<and> nodeIdCounter (snd (deepCopy (fst rootAdded) rootedState)) = nodeIdCounter rootedState
   \<and> root (snd (deepCopy h state)) = maybeGetNode (nodesById (snd (deepCopy h state))) 0"
  by (simp add: rootedState_def rootAdded_def eval_context)

text \<open>
  C7, as amended. Take a world whose id counters are integers from \<open>- 2 ^ 53\<close> up to
  \<open>2 ^ 53 - n\<close>, and any sequence of \<open>n\<close> operations \<^verbatim>\<open>addChild\<close>, \<^verbatim>\<open>endContext\<close>,
  \<^verbatim>\<open>deleteContext\<close> and \<^verbatim>\<open>deepCopy\<close> on its states. One operation changes the id counter
  of a state only when it is an \<^verbatim>\<open>addChild\<close> on that state, which sets it to the
  JavaScript sum of the counter and one and returns that as the id; in the range above
  the sum is exact, so the counter increases by one. A copy starts with the counter of
  its original. So over the sequence the ids allocated in a state, those of its original
  before the copy included, stay strictly increasing and at most the counter, hence
  distinct, whatever was deleted, and no counter decreases.
\<close>

theorem nodeIdCounter_increases:
  assumes "idsIncrease w hist" and "countersSafe w (length ops)"
  shows "(\<forall>s<length (states w).
            nodeIdCounter (states (fst (step w op)) ! s) =
              (if isAddChildOn s op then jsAddOne (nodeIdCounter (states w ! s))
               else nodeIdCounter (states w ! s)))
       \<and> (\<forall>s<length (states w).
            snd (step w (AddChild s p k t)) = Some (jsAddOne (nodeIdCounter (states w ! s))))
       \<and> (\<forall>s<length (states w).
            ops \<noteq> [] \<longrightarrow>
              jsAddOne (nodeIdCounter (states w ! s)) = nodeIdCounter (states w ! s) + 1)
       \<and> (\<forall>s<length (states w).
            nodeIdCounter (last (states (fst (step w (DeepCopy s)))))
              = nodeIdCounter (states w ! s))
       \<and> idsIncrease (fst (run w hist ops)) (snd (run w hist ops))
       \<and> (\<forall>s<length (states (fst (run w hist ops))). distinct (snd (run w hist ops) ! s))
       \<and> (\<forall>s<length (states w).
            nodeIdCounter (states w ! s) \<le> nodeIdCounter (states (fst (run w hist ops)) ! s))"
proof -
  have inv: "idsIncrease (fst (run w hist ops)) (snd (run w hist ops))"
    using assms by (rule run_idsIncrease)
  have "\<forall>s<length (states (fst (run w hist ops))). distinct (snd (run w hist ops) ! s)"
    using inv by (auto simp: idsIncrease_def strict_sorted_iff)
  moreover have "\<forall>s<length (states w).
            nodeIdCounter (last (states (fst (step w (DeepCopy s)))))
              = nodeIdCounter (states w ! s)"
    by (simp add: Let_def deepCopy_counter)
  moreover have "\<forall>s<length (states w).
            ops \<noteq> [] \<longrightarrow>
              jsAddOne (nodeIdCounter (states w ! s)) = nodeIdCounter (states w ! s) + 1"
  proof (intro allI impI)
    fix s assume s: "s < length (states w)" and "ops \<noteq> []"
    then obtain n where "length ops = Suc n" by (cases ops) auto
    then have "countersSafe w (Suc n)" using assms(2) by simp
    then show "jsAddOne (nodeIdCounter (states w ! s)) = nodeIdCounter (states w ! s) + 1"
      using s by (rule countersSafe_exact)
  qed
  ultimately show ?thesis
    using inv step_counter [of _ w op] step_id [of _ w p k t]
      run_counter [of _ w ops hist, OF _ assms(2)]
    by blast
qed

theorem nodeIdCounter_increases_witness:
  "idsIncrease startWorld [[]]
   \<and> countersSafe startWorld (length backtrackOps)
   \<and> snd (run startWorld [[]] backtrackOps) = [[1, 2, 3], [1, 2, 3]]
   \<and> map nodeIdCounter (states (fst (run startWorld [[]] backtrackOps))) = [3, 3]
   \<and> idsIncrease (fst (run startWorld [[]] backtrackOps)) [[1, 2, 3], [1, 2, 3]]"
proof -
  have a: "idsIncrease startWorld [[]]"
    by (simp add: idsIncrease_def startWorld_def)
  have b: "countersSafe startWorld (length backtrackOps)"
    by (simp add: countersSafe_def startWorld_def backtrackOps_def empty_state_def)
  show ?thesis
    using nodeIdCounter_increases [OF a b] a b run_backtrackOps by simp
qed

theorem nodeIdCounter_increases_counterexample:
  "nodeIdCounter (states limitWorld ! 0) = 2 ^ 53
   \<and> nodeIdCounter (states (fst (step limitWorld (AddChild 0 None ''First'' None))) ! 0) = 2 ^ 53
   \<and> snd (run limitWorld [[]] twoAdds) = [[2 ^ 53, 2 ^ 53]]
   \<and> \<not> distinct (snd (run limitWorld [[]] twoAdds) ! 0)"
  by (simp add: limitWorld_def twoAdds_def addChild_def allocNode_def allocArray_def
        empty_state_def emptyStore_def Let_def jsAddOne_at_limit_numeral)

text \<open>
  C10. When \<^verbatim>\<open>deleteContext\<close> raises the fault for a node whose recorded parent is in the
  node map but does not list the node among its children, the state has changed already:
  the node's id was in the node map before and is not in it afterwards, and its first
  occurrence has been taken out of the terminal-id list (so a list without repetitions no
  longer holds it). The store is as it was.
\<close>

theorem deleteContext_not_atomic:
  assumes "deleteContext h state node = (h', state', Inl (NotListedAsChild nid parentId))"
  shows "nid = nodeId (nodeObjs h ! node)
         \<and> maybeParentId (nodeObjs h ! node) = Some parentId
         \<and> map_of (nodesById state) nid \<noteq> None
         \<and> map_of (nodesById state') nid = None
         \<and> terminalNodeIds state' = remove1 nid (terminalNodeIds state)
         \<and> (distinct (terminalNodeIds state) \<longrightarrow> nid \<notin> set (terminalNodeIds state'))
         \<and> state' \<noteq> state
         \<and> h' = h
         \<and> (\<exists>parent. map_of (nodesById state') parentId = Some parent
                \<and> nid \<notin> set (arrayObjs h ! childNodeIds (nodeObjs h ! parent)))"
proof -
  let ?nid = "nodeId (nodeObjs h ! node)"
  have present: "map_of (nodesById state) ?nid \<noteq> None"
    using assms by (auto simp: deleteContext_def Let_def split: if_splits)
  define state2 where "state2 =
    (case indexOf (terminalNodeIds state) ?nid of
       Some terminalIndex \<Rightarrow>
         state\<lparr>nodesById := AList.delete ?nid (nodesById state),
               terminalNodeIds := take terminalIndex (terminalNodeIds state)
                                    @ drop (terminalIndex + 1) (terminalNodeIds state)\<rparr>
     | None \<Rightarrow> state\<lparr>nodesById := AList.delete ?nid (nodesById state)\<rparr>)"
  have s2map: "nodesById state2 = AList.delete ?nid (nodesById state)"
    by (simp add: state2_def split: option.splits)
  have s2term: "terminalNodeIds state2 = remove1 ?nid (terminalNodeIds state)"
    by (simp add: state2_def indexOf_Some_remove1 indexOf_None_remove1 split: option.splits)
  have res: "h' = h \<and> state' = state2 \<and> nid = ?nid
             \<and> maybeParentId (nodeObjs h ! node) = Some parentId
             \<and> (\<exists>parent. map_of (nodesById state2) parentId = Some parent
                    \<and> indexOf (arrayObjs h ! childNodeIds (nodeObjs h ! parent)) ?nid = None)"
    using assms present
    by (auto simp: deleteContext_def Let_def state2_def expectNode_def maybeGetNode_def
          split: option.splits sum.splits if_splits)
  have gone: "map_of (nodesById state2) ?nid = None"
    by (simp add: s2map map_of_delete)
  have "state2 \<noteq> state" using present gone by auto
  then show ?thesis
    using res present gone s2term by (auto simp: indexOf_None)
qed

theorem deleteContext_not_atomic_witness:
  "deleteContext orphanStore orphanState 1 =
     (orphanStore,
      \<lparr> root = None, nodesById = [(1, 0)], terminalNodeIds = [], nodeIdCounter = 2 \<rparr>,
      Inl (NotListedAsChild 2 1))
   \<and> map_of (nodesById orphanState) 2 = Some 1
   \<and> terminalNodeIds orphanState = [2]"
proof -
  have a: "deleteContext orphanStore orphanState 1 =
     (orphanStore,
      \<lparr> root = None, nodesById = [(1, 0)], terminalNodeIds = [], nodeIdCounter = 2 \<rparr>,
      Inl (NotListedAsChild 2 1))"
    by (simp add: deleteContext_def orphanStore_def orphanState_def AList.delete_eq
          expectNode_def maybeGetNode_def Let_def)
  show ?thesis
    using deleteContext_not_atomic [OF a] a by (simp add: orphanState_def)
qed

end
